theory Spec2Isabelle
  imports Main
begin

section \<open>Data model (src/types.ts)\<close>

text \<open>
  The interfaces of \<^verbatim>\<open>types.ts\<close> that the bulk tool reads. Optional fields the
  handler never touches (\<^verbatim>\<open>cortexIds\<close>, \<^verbatim>\<open>rate\<close>, \<^verbatim>\<open>full\<close>, ...) are left out; an
  optional field that it does read is an \<open>option\<close>, \<open>None\<close> standing for \<^verbatim>\<open>undefined\<close>.
\<close>

datatype JobStatus = Waiting | InProgress | Success | Failure | Deleted

fun status_str :: "JobStatus \<Rightarrow> string" where
  "status_str Waiting = ''Waiting''"
| "status_str InProgress = ''InProgress''"
| "status_str Success = ''Success''"
| "status_str Failure = ''Failure''"
| "status_str Deleted = ''Deleted''"

datatype Level = Info | Safe | Suspicious | Malicious

fun level_str :: "Level \<Rightarrow> string" where
  "level_str Info = ''info''"
| "level_str Safe = ''safe''"
| "level_str Suspicious = ''suspicious''"
| "level_str Malicious = ''malicious''"

record Analyzer =
  a_id :: string
  a_name :: string
  a_version :: string
  a_description :: string
  a_dataTypeList :: "string list"

record Job =
  j_id :: string
  j_status :: JobStatus

record Taxonomy =
  t_level :: Level
  t_namespace :: string
  t_predicate :: string
  t_value :: string

record ReportSummary =
  s_taxonomies :: "Taxonomy list option"

record ReportBody =
  b_summary :: "ReportSummary option"

record JobReport = Job +
  j_report :: "ReportBody option"

record RunAnalyzerRequest =
  q_data :: string
  q_dataType :: string
  q_tlp :: int
  q_pap :: int

section \<open>Promises and the client (src/client.ts)\<close>

text \<open>
  What a rejected promise carries. The handler reads it with
  \<^verbatim>\<open>reason instanceof Error ? reason.message : String(reason)\<close>: \<open>ErrorObj m\<close> is an
  \<^verbatim>\<open>Error\<close> whose message is \<open>m\<close>, \<open>NonError s\<close> any other thrown value, \<open>s\<close> being what
  \<^verbatim>\<open>String\<close> makes of it.
\<close>

datatype reason = ErrorObj string | NonError string

fun reason_text :: "reason \<Rightarrow> string" where
  "reason_text (ErrorObj m) = m"
| "reason_text (NonError s) = s"

text \<open>
  How \<^verbatim>\<open>CortexClient.request\<close> rejects when the server answers with a status that is not
  ok: an \<^verbatim>\<open>Error\<close> whose message is \<^verbatim>\<open>Cortex API error: \<close>, the entry of the status in
  its table of messages, or \<^verbatim>\<open>HTTP ${status}: ${statusText}\<close> for a status the table does
  not have, and the body of the response after \<^verbatim>\<open> - \<close> when it is not empty.
\<close>

function decimal :: "nat \<Rightarrow> string" where
  "decimal n =
     (if n < 10 then [''0123456789'' ! n]
      else decimal (n div 10) @ [''0123456789'' ! (n mod 10)])"
  by pat_completeness auto
termination
  by (relation "measure id") auto

declare decimal.simps [simp del]

definition status_message :: "nat \<Rightarrow> string \<Rightarrow> string" where
  "status_message status statusText =
     (if status = 401 then ''Invalid API key or unauthorized access''
      else if status = 403 then ''Forbidden - insufficient permissions''
      else if status = 404 then ''Resource not found''
      else if status = 429 then ''Rate limit exceeded''
      else if status = 500 then ''Cortex internal server error''
      else ''HTTP '' @ decimal status @ '': '' @ statusText)"

definition api_error :: "nat \<Rightarrow> string \<Rightarrow> string \<Rightarrow> reason" where
  "api_error status statusText body =
     ErrorObj (''Cortex API error: '' @ status_message status statusText
                 @ (if body \<noteq> [] then '' - '' @ body else []))"

text \<open>\<^verbatim>\<open>PromiseSettledResult\<close>: the status tag with the value or the reason.\<close>

datatype 'a settled = fulfilled 'a | rejected reason

text \<open>
  \<^verbatim>\<open>Promise.allSettled\<close> makes one fresh result object per input promise and resolves
  to the array of these objects, in the order of the input. The handler later looks a
  result up with \<^verbatim>\<open>indexOf\<close>, which compares object identities, so every result carries
  its identity: a number no other result of the array has, here the number of its promise.
\<close>

type_synonym 'a settled_result = "nat \<times> 'a settled"

definition allSettled :: "'a settled list \<Rightarrow> 'a settled_result list" where
  "allSettled ps = zip [0..<length ps] ps"

text \<open>
  How the array comes about: \<^verbatim>\<open>Promise.allSettled\<close> keeps one slot per input promise and
  fills slot \<open>k\<close> when promise \<open>k\<close> settles, at whatever moment that is.
  \<open>settle_in order ps slots\<close> are the slots after the promises settled in the order given
  (a number beyond the array names no promise and fills no slot).
\<close>

fun settle_in ::
  "nat list \<Rightarrow> 'a settled list \<Rightarrow> 'a settled_result option list
     \<Rightarrow> 'a settled_result option list" where
  "settle_in [] ps slots = slots"
| "settle_in (k # ks) ps slots = settle_in ks ps (slots[k := Some (k, ps ! k)])"

text \<open>The calls a handler run issues on the client, in the order it issues them.\<close>

datatype call =
    ListAnalyzers
  | RunAnalyzer string RunAnalyzerRequest
  | WaitAndGetReport string int

text \<open>
  The client is a parameter of the handler. Each method is a function of the client's
  own state (the server it talks to, a mock's call counter), threaded through the calls in
  the order they are issued; \<open>Inl\<close> is a rejected promise.
\<close>

record 's CortexClient =
  listAnalyzers :: "'s \<Rightarrow> (reason + Analyzer list) \<times> 's"
  runAnalyzer :: "string \<Rightarrow> RunAnalyzerRequest \<Rightarrow> 's \<Rightarrow> (reason + Job) \<times> 's"
  waitAndGetReport :: "string \<Rightarrow> int \<Rightarrow> 's \<Rightarrow> (reason + JobReport) \<times> 's"

text \<open>The state of a run: the client's state and the calls issued so far.\<close>

type_synonym 's world = "'s \<times> call list"

section \<open>The bulk tool (src/tools/bulk.ts)\<close>

record Args =
  dataType :: string
  data :: string
  tlp :: int
  pap :: int
  timeout :: int

record Submitted =
  s_analyzer :: string
  s_jobId :: string

record SubmissionError =
  f_analyzer :: string
  f_error :: string

record ResultEntry =
  r_analyzer :: string
  r_status :: string
  r_taxonomies :: "string list"

record TaggedTaxonomy = Taxonomy +
  t_analyzer :: string

record LevelCounts =
  c_malicious :: nat
  c_suspicious :: nat
  c_info :: nat
  c_safe :: nat

record Observable =
  o_dataType :: string
  o_data :: string

record AggregateReport =
  observable :: Observable
  analyzersRun :: nat
  analyzersFailed :: nat
  summary :: LevelCounts
  results :: "ResultEntry list"
  submissionErrors :: "SubmissionError list option"

subsection \<open>JSON.stringify\<close>

text \<open>
  JavaScript values as far as the report uses them, and the JSON tree
  \<^verbatim>\<open>JSON.stringify\<close> writes for them: a property whose value is \<^verbatim>\<open>undefined\<close> is left
  out of its object, an \<^verbatim>\<open>undefined\<close> array element becomes \<^verbatim>\<open>null\<close>, and
  \<^verbatim>\<open>undefined\<close> itself has no JSON text.
\<close>

datatype jsvalue =
    JUndefined
  | JNumber nat
  | JString string
  | JArray "jsvalue list"
  | JObject "(string \<times> jsvalue) list"

datatype json =
    Null
  | Num nat
  | Str string
  | Arr "json list"
  | Obj "(string \<times> json) list"

fun stringify :: "jsvalue \<Rightarrow> json option" where
  "stringify JUndefined = None"
| "stringify (JNumber n) = Some (Num n)"
| "stringify (JString s) = Some (Str s)"
| "stringify (JArray vs) =
     Some (Arr (map (\<lambda>v. case stringify v of None \<Rightarrow> Null | Some j \<Rightarrow> j) vs))"
| "stringify (JObject kvs) =
     Some (Obj (concat (map
       (\<lambda>(k, v). case stringify v of None \<Rightarrow> [] | Some j \<Rightarrow> [(k, j)]) kvs)))"

subsection \<open>Array helpers\<close>

text \<open>\<^verbatim>\<open>xs[k]\<close>: \<open>None\<close> is the \<^verbatim>\<open>undefined\<close> JavaScript gives outside the array.\<close>

definition element_at :: "'a list \<Rightarrow> int \<Rightarrow> 'a option" where
  "element_at xs k = (if 0 \<le> k \<and> k < int (length xs) then Some (xs ! nat k) else None)"

text \<open>
  \<^verbatim>\<open>xs.indexOf(r)\<close> on an array of settled results: the first position holding the
  same object, \<open>-1\<close> when there is none.
\<close>

fun indexOf :: "'a settled_result list \<Rightarrow> 'a settled_result \<Rightarrow> int" where
  "indexOf [] r = - 1"
| "indexOf (x # xs) r =
     (if fst x = fst r then 0
      else (let k = indexOf xs r in if k < 0 then - 1 else k + 1))"

text \<open>
  \<^verbatim>\<open>xs.map(async (x) => ...)\<close>: the async bodies start in array order, each one running up to
  its client call before the next starts, so the calls reach the client in array order.
  Every body ends in a settled promise of its own, whatever the others do.
\<close>

fun map_async :: "('a \<Rightarrow> 'w \<Rightarrow> 'b settled \<times> 'w) \<Rightarrow> 'a list \<Rightarrow> 'w \<Rightarrow> 'b settled list \<times> 'w" where
  "map_async f [] w = ([], w)"
| "map_async f (x # xs) w =
     (let (p, w1) = f x w; (ps, w2) = map_async f xs w1 in (p # ps, w2))"

text \<open>\<^verbatim>\<open>.filter(r => r.status === "fulfilled").map(r => r.value)\<close>\<close>

fun fulfilled_values :: "'a settled_result list \<Rightarrow> 'a list" where
  "fulfilled_values [] = []"
| "fulfilled_values ((i, fulfilled v) # rs) = v # fulfilled_values rs"
| "fulfilled_values ((i, rejected e) # rs) = fulfilled_values rs"

text \<open>\<^verbatim>\<open>.filter(r => r.status === "rejected")\<close>, each result read through its reason.\<close>

fun rejected_reasons :: "'a settled_result list \<Rightarrow> reason list" where
  "rejected_reasons [] = []"
| "rejected_reasons ((i, fulfilled v) # rs) = rejected_reasons rs"
| "rejected_reasons ((i, rejected e) # rs) = e # rejected_reasons rs"

subsection \<open>Step 1: the analyzers that support the data type\<close>

definition call_listAnalyzers ::
  "'s CortexClient \<Rightarrow> 's world \<Rightarrow> (reason + Analyzer list) \<times> 's world" where
  "call_listAnalyzers c w =
     (let (res, s') = listAnalyzers c (fst w) in (res, (s', snd w @ [ListAnalyzers])))"

definition applicable_of :: "string \<Rightarrow> Analyzer list \<Rightarrow> Analyzer list" where
  "applicable_of dt allAnalyzers = filter (\<lambda>a. dt \<in> set (a_dataTypeList a)) allAnalyzers"

subsection \<open>Step 2: submit the observable to each analyzer\<close>

definition request_of :: "Args \<Rightarrow> RunAnalyzerRequest" where
  "request_of args =
     \<lparr>q_data = data args, q_dataType = dataType args, q_tlp = tlp args, q_pap = pap args\<rparr>"

definition submit_one ::
  "'s CortexClient \<Rightarrow> Args \<Rightarrow> Analyzer \<Rightarrow> 's world \<Rightarrow> Submitted settled \<times> 's world" where
  "submit_one c args analyzer w =
     (let (res, s') = runAnalyzer c (a_id analyzer) (request_of args) (fst w);
          w' = (s', snd w @ [RunAnalyzer (a_id analyzer) (request_of args)])
      in case res of
           Inl e \<Rightarrow> (rejected e, w')
         | Inr job \<Rightarrow> (fulfilled \<lparr>s_analyzer = a_name analyzer, s_jobId = j_id job\<rparr>, w'))"

text \<open>
  The \<^verbatim>\<open>TypeError\<close> a property read on \<^verbatim>\<open>undefined\<close> throws; inside the handler's
  \<^verbatim>\<open>try\<close> it would end in the \<^verbatim>\<open>catch\<close> block.
\<close>

definition undefined_read :: "string \<Rightarrow> reason" where
  "undefined_read prop =
     ErrorObj (''Cannot read properties of undefined (reading '' @ [CHR 0x27] @ prop
                 @ [CHR 0x27] @ '')'')"

text \<open>
  \<^verbatim>\<open>.map((r, i) => ({ analyzer: applicable[i].name, error: ... }))\<close> over the rejected
  results: \<open>i\<close> is the position in the array being mapped, the filtered one.
\<close>

fun failed_map :: "Analyzer list \<Rightarrow> nat \<Rightarrow> reason list \<Rightarrow> reason + SubmissionError list" where
  "failed_map applicable i [] = Inr []"
| "failed_map applicable i (e # es) =
     (case element_at applicable (int i) of
        None \<Rightarrow> Inl (undefined_read ''name'')
      | Some a \<Rightarrow>
          (case failed_map applicable (Suc i) es of
             Inl err \<Rightarrow> Inl err
           | Inr fs \<Rightarrow> Inr (\<lparr>f_analyzer = a_name a, f_error = reason_text e\<rparr> # fs)))"

subsection \<open>Step 3: wait for all jobs to complete\<close>

definition wait_one ::
  "'s CortexClient \<Rightarrow> int \<Rightarrow> Submitted \<Rightarrow> 's world \<Rightarrow> (string \<times> JobReport) settled \<times> 's world" where
  "wait_one c tmo sub w =
     (let (res, s') = waitAndGetReport c (s_jobId sub) tmo (fst w);
          w' = (s', snd w @ [WaitAndGetReport (s_jobId sub) tmo])
      in case res of
           Inl e \<Rightarrow> (rejected e, w')
         | Inr report \<Rightarrow> (fulfilled (s_analyzer sub, report), w'))"

subsection \<open>Step 4: aggregate\<close>

text \<open>\<^verbatim>\<open>report.report?.summary?.taxonomies ?? []\<close>\<close>

definition taxonomies_of :: "JobReport \<Rightarrow> Taxonomy list" where
  "taxonomies_of report =
     (case j_report report of
        None \<Rightarrow> []
      | Some body \<Rightarrow>
          (case b_summary body of
             None \<Rightarrow> []
           | Some sm \<Rightarrow> (case s_taxonomies sm of None \<Rightarrow> [] | Some ts \<Rightarrow> ts)))"

text \<open>\<^verbatim>\<open>{ ...t, analyzer }\<close>\<close>

definition tag :: "string \<Rightarrow> Taxonomy \<Rightarrow> TaggedTaxonomy" where
  "tag analyzer t =
     \<lparr>t_level = t_level t, t_namespace = t_namespace t, t_predicate = t_predicate t,
      t_value = t_value t, t_analyzer = analyzer\<rparr>"

text \<open>The template \<^verbatim>\<open>[${t.level}] ${t.namespace}:${t.predicate} = ${t.value}\<close>\<close>

definition render :: "Taxonomy \<Rightarrow> string" where
  "render t =
     ''['' @ level_str (t_level t) @ ''] '' @ t_namespace t @ '':'' @ t_predicate t
       @ '' = '' @ t_value t"

record Aggregation =
  allTaxonomies :: "TaggedTaxonomy list"
  agg_results :: "ResultEntry list"

text \<open>One turn of \<^verbatim>\<open>for (const result of reports)\<close>.\<close>

definition aggregate_step ::
  "Submitted list \<Rightarrow> (string \<times> JobReport) settled_result list
     \<Rightarrow> (string \<times> JobReport) settled_result \<Rightarrow> Aggregation \<Rightarrow> Aggregation" where
  "aggregate_step submitted reports result acc =
     (case snd result of
        fulfilled (analyzer, report) \<Rightarrow>
          (let taxonomies = taxonomies_of report in
           \<lparr>allTaxonomies = allTaxonomies acc @ map (tag analyzer) taxonomies,
            agg_results = agg_results acc @
              [\<lparr>r_analyzer = analyzer, r_status = status_str (j_status report),
                r_taxonomies = map render taxonomies\<rparr>]\<rparr>)
      | rejected e \<Rightarrow>
          acc\<lparr>agg_results := agg_results acc @
              [\<lparr>r_analyzer =
                  (case element_at submitted (indexOf reports result) of
                     None \<Rightarrow> ''unknown''
                   | Some sub \<Rightarrow> s_analyzer sub),
                r_status = ''Error'',
                r_taxonomies = [''Error: '' @ reason_text e]\<rparr>]\<rparr>)"

fun aggregate_loop ::
  "Submitted list \<Rightarrow> (string \<times> JobReport) settled_result list
     \<Rightarrow> (string \<times> JobReport) settled_result list \<Rightarrow> Aggregation \<Rightarrow> Aggregation" where
  "aggregate_loop submitted reports [] acc = acc"
| "aggregate_loop submitted reports (result # rest) acc =
     aggregate_loop submitted reports rest (aggregate_step submitted reports result acc)"

definition aggregate ::
  "Submitted list \<Rightarrow> (string \<times> JobReport) settled_result list \<Rightarrow> Aggregation" where
  "aggregate submitted reports =
     aggregate_loop submitted reports reports \<lparr>allTaxonomies = [], agg_results = []\<rparr>"

definition levelCounts :: "TaggedTaxonomy list \<Rightarrow> LevelCounts" where
  "levelCounts ts =
     \<lparr>c_malicious = length (filter (\<lambda>t. level_str (t_level t) = ''malicious'') ts),
      c_suspicious = length (filter (\<lambda>t. level_str (t_level t) = ''suspicious'') ts),
      c_info = length (filter (\<lambda>t. level_str (t_level t) = ''info'') ts),
      c_safe = length (filter (\<lambda>t. level_str (t_level t) = ''safe'') ts)\<rparr>"

definition build_report ::
  "Args \<Rightarrow> Submitted list \<Rightarrow> SubmissionError list \<Rightarrow> Aggregation \<Rightarrow> AggregateReport" where
  "build_report args submitted failed acc =
     \<lparr>observable = \<lparr>o_dataType = dataType args, o_data = data args\<rparr>,
      analyzersRun = length submitted,
      analyzersFailed = length failed,
      summary = levelCounts (allTaxonomies acc),
      results = agg_results acc,
      submissionErrors = (if length failed > 0 then Some failed else None)\<rparr>"

subsection \<open>The object handed to JSON.stringify\<close>

definition js_strings :: "string list \<Rightarrow> jsvalue" where
  "js_strings xs = JArray (map JString xs)"

definition js_result :: "ResultEntry \<Rightarrow> jsvalue" where
  "js_result r =
     JObject [(''analyzer'', JString (r_analyzer r)), (''status'', JString (r_status r)),
              (''taxonomies'', js_strings (r_taxonomies r))]"

definition js_failed :: "SubmissionError \<Rightarrow> jsvalue" where
  "js_failed f =
     JObject [(''analyzer'', JString (f_analyzer f)), (''error'', JString (f_error f))]"

definition js_counts :: "LevelCounts \<Rightarrow> jsvalue" where
  "js_counts c =
     JObject [(''malicious'', JNumber (c_malicious c)), (''suspicious'', JNumber (c_suspicious c)),
              (''info'', JNumber (c_info c)), (''safe'', JNumber (c_safe c))]"

definition js_report :: "AggregateReport \<Rightarrow> jsvalue" where
  "js_report r =
     JObject
       [(''observable'',
           JObject [(''dataType'', JString (o_dataType (observable r))),
                    (''data'', JString (o_data (observable r)))]),
        (''analyzersRun'', JNumber (analyzersRun r)),
        (''analyzersFailed'', JNumber (analyzersFailed r)),
        (''summary'', js_counts (summary r)),
        (''results'', JArray (map js_result (results r))),
        (''submissionErrors'',
           (case submissionErrors r of
              None \<Rightarrow> JUndefined
            | Some fs \<Rightarrow> JArray (map js_failed fs)))]"

subsection \<open>The handler\<close>

text \<open>
  The text of a response: a plain message, or \<^verbatim>\<open>JSON.stringify(report, null, 2)\<close>, kept
  as the JSON tree that text spells out.
\<close>

datatype ResponseText = Message string | Json "json option"

text \<open>\<open>isError = None\<close>: the response object has no \<^verbatim>\<open>isError\<close> property.\<close>

record Response =
  content_text :: ResponseText
  isError :: "bool option"

definition no_analyzers_response :: "string \<Rightarrow> Response" where
  "no_analyzers_response dt =
     \<lparr>content_text =
        Message (''No analyzers found that support data type '' @ [CHR 0x22] @ dt
                   @ [CHR 0x22] @ ''.''),
      isError = None\<rparr>"

definition error_response :: "reason \<Rightarrow> Response" where
  "error_response e =
     \<lparr>content_text = Message (''Error analyzing observable: '' @ reason_text e),
      isError = Some True\<rparr>"

definition report_response :: "AggregateReport \<Rightarrow> Response" where
  "report_response r = \<lparr>content_text = Json (stringify (js_report r)), isError = None\<rparr>"

text \<open>
  The outcome of the \<^verbatim>\<open>try\<close> block: what it returns, or what it throws; next to it, the
  intermediate arrays of the run, kept for the statements below. An array the run ends
  before building is \<open>[]\<close> here.
\<close>

datatype outcome =
    NoAnalyzers
  | Report AggregateReport
  | Thrown reason

record 's Run =
  run_outcome :: outcome
  run_applicable :: "Analyzer list"
  run_submissions :: "Submitted settled_result list"
  run_submitted :: "Submitted list"
  run_failed :: "SubmissionError list"
  run_reports :: "(string \<times> JobReport) settled_result list"
  run_world :: "'s world"

definition try_block :: "'s CortexClient \<Rightarrow> Args \<Rightarrow> 's world \<Rightarrow> 's Run" where
  "try_block c args w0 =
     (let (listed, w1) = call_listAnalyzers c w0 in
      case listed of
        Inl e \<Rightarrow>
          \<lparr>run_outcome = Thrown e, run_applicable = [], run_submissions = [],
           run_submitted = [], run_failed = [], run_reports = [], run_world = w1\<rparr>
      | Inr allAnalyzers \<Rightarrow>
          (let applicable = applicable_of (dataType args) allAnalyzers in
           if length applicable = 0 then
             \<lparr>run_outcome = NoAnalyzers, run_applicable = applicable, run_submissions = [],
              run_submitted = [], run_failed = [], run_reports = [], run_world = w1\<rparr>
           else
             (let (ps, w2) = map_async (submit_one c args) applicable w1;
                  submissions = allSettled ps;
                  submitted = fulfilled_values submissions
              in case failed_map applicable 0 (rejected_reasons submissions) of
                   Inl e \<Rightarrow>
                     \<lparr>run_outcome = Thrown e, run_applicable = applicable,
                      run_submissions = submissions, run_submitted = submitted,
                      run_failed = [], run_reports = [], run_world = w2\<rparr>
                 | Inr failed \<Rightarrow>
                     (let (qs, w3) = map_async (wait_one c (timeout args)) submitted w2;
                          reports = allSettled qs
                      in \<lparr>run_outcome =
                             Report (build_report args submitted failed
                                       (aggregate submitted reports)),
                           run_applicable = applicable, run_submissions = submissions,
                           run_submitted = submitted, run_failed = failed,
                           run_reports = reports, run_world = w3\<rparr>))))"

definition respond :: "Args \<Rightarrow> outcome \<Rightarrow> Response" where
  "respond args out =
     (case out of
        NoAnalyzers \<Rightarrow> no_analyzers_response (dataType args)
      | Report r \<Rightarrow> report_response r
      | Thrown e \<Rightarrow> error_response e)"

definition handler :: "'s CortexClient \<Rightarrow> Args \<Rightarrow> 's world \<Rightarrow> Response \<times> 's world" where
  "handler c args w0 =
     (let run = try_block c args w0 in (respond args (run_outcome run), run_world run))"

section \<open>Reading a run\<close>

text \<open>
  Notions the statements below are phrased in. None of them is part of the handler.
\<close>

fun is_fulfilled :: "'a settled \<Rightarrow> bool" where
  "is_fulfilled (fulfilled v) = True"
| "is_fulfilled (rejected e) = False"

fun value_of :: "'a settled \<Rightarrow> 'a option" where
  "value_of (fulfilled v) = Some v"
| "value_of (rejected e) = None"

text \<open>
  The name a fulfilled promise carries is the name it was started for: of the analyzer,
  for a submission; of the submitted job, for a wait.
\<close>

definition names_from :: "Analyzer \<Rightarrow> Submitted settled \<Rightarrow> bool" where
  "names_from a p = (case p of fulfilled v \<Rightarrow> s_analyzer v = a_name a | rejected e \<Rightarrow> True)"

definition names_agree :: "Submitted \<Rightarrow> (string \<times> JobReport) settled \<Rightarrow> bool" where
  "names_agree sub out = (case out of fulfilled (a, report) \<Rightarrow> a = s_analyzer sub | rejected e \<Rightarrow> True)"

text \<open>
  What \<open>failed_map\<close> returns when it does not throw: the \<open>i\<close>-th reason next to the
  name of the \<open>i\<close>-th applicable analyzer.
\<close>

definition failed_entries :: "Analyzer list \<Rightarrow> reason list \<Rightarrow> SubmissionError list" where
  "failed_entries applicable es =
     map2 (\<lambda>a e. \<lparr>f_analyzer = a_name a, f_error = reason_text e\<rparr>)
       (take (length es) applicable) es"

text \<open>
  The summary record of one provider: its name, then the status and the rendered findings
  of a completed wait, or \<open>Error\<close> and the failure message of a failed one.
\<close>

definition summary_record :: "string \<Rightarrow> (string \<times> JobReport) settled \<Rightarrow> ResultEntry" where
  "summary_record provider out =
     (case out of
        fulfilled (a, report) \<Rightarrow>
          \<lparr>r_analyzer = provider, r_status = status_str (j_status report),
           r_taxonomies = map render (taxonomies_of report)\<rparr>
      | rejected e \<Rightarrow>
          \<lparr>r_analyzer = provider, r_status = ''Error'',
           r_taxonomies = [''Error: '' @ reason_text e]\<rparr>)"

text \<open>
  The findings of a settled wait, the number of findings of one level in a report, and
  the count a summary holds for a level.
\<close>

definition findings_of :: "(string \<times> JobReport) settled \<Rightarrow> Taxonomy list" where
  "findings_of out =
     (case out of fulfilled (a, report) \<Rightarrow> taxonomies_of report | rejected e \<Rightarrow> [])"

definition findings_with :: "Level \<Rightarrow> JobReport \<Rightarrow> nat" where
  "findings_with l report = length (filter (\<lambda>t. t_level t = l) (taxonomies_of report))"

definition level_count :: "LevelCounts \<Rightarrow> Level \<Rightarrow> nat" where
  "level_count c l =
     (case l of Info \<Rightarrow> c_info c | Safe \<Rightarrow> c_safe c | Suspicious \<Rightarrow> c_suspicious c
              | Malicious \<Rightarrow> c_malicious c)"

text \<open>
  The JSON tree of a report, written out key by key.
\<close>

definition json_result :: "ResultEntry \<Rightarrow> json" where
  "json_result r =
     Obj [(''analyzer'', Str (r_analyzer r)), (''status'', Str (r_status r)),
          (''taxonomies'', Arr (map Str (r_taxonomies r)))]"

definition json_failed :: "SubmissionError \<Rightarrow> json" where
  "json_failed f = Obj [(''analyzer'', Str (f_analyzer f)), (''error'', Str (f_error f))]"

definition json_report :: "AggregateReport \<Rightarrow> (string \<times> json) list" where
  "json_report r =
     [(''observable'',
         Obj [(''dataType'', Str (o_dataType (observable r))),
              (''data'', Str (o_data (observable r)))]),
      (''analyzersRun'', Num (analyzersRun r)),
      (''analyzersFailed'', Num (analyzersFailed r)),
      (''summary'',
         Obj [(''malicious'', Num (c_malicious (summary r))),
              (''suspicious'', Num (c_suspicious (summary r))),
              (''info'', Num (c_info (summary r))), (''safe'', Num (c_safe (summary r)))]),
      (''results'', Arr (map json_result (results r)))]
     @ (case submissionErrors r of
          None \<Rightarrow> []
        | Some fs \<Rightarrow> [(''submissionErrors'', Arr (map json_failed fs))])"

text \<open>
  The calls a run added to those issued before it, and the two kinds of provider call.
\<close>

definition issued :: "'s world \<Rightarrow> 's Run \<Rightarrow> call list" where
  "issued w run = drop (length (snd w)) (snd (run_world run))"

fun is_submit :: "call \<Rightarrow> bool" where
  "is_submit (RunAnalyzer aid req) = True"
| "is_submit c = False"

fun is_wait :: "call \<Rightarrow> bool" where
  "is_wait (WaitAndGetReport jid tmo) = True"
| "is_wait c = False"

text \<open>
  What the client answers when the calls of a stage are put to it one after the other,
  each from the state the one before left: the answers to the submissions of the
  applicable analyzers, and to the waits for the submitted jobs. Beside them, the settled
  promise a stage makes of one answer, the reason an answer rejects with, and the
  rejections a report lists.
\<close>

fun rejection :: "reason + 'a \<Rightarrow> reason option" where
  "rejection (Inl e) = Some e"
| "rejection (Inr v) = None"

fun replay :: "('k \<Rightarrow> 's \<Rightarrow> 'r \<times> 's) \<Rightarrow> 'k list \<Rightarrow> 's \<Rightarrow> 'r list \<times> 's" where
  "replay f [] s = ([], s)"
| "replay f (k # ks) s =
     (let (r, s1) = f k s; (rs, s2) = replay f ks s1 in (r # rs, s2))"

definition submit_answers ::
  "'s CortexClient \<Rightarrow> Args \<Rightarrow> Analyzer list \<Rightarrow> 's \<Rightarrow> (reason + Job) list \<times> 's" where
  "submit_answers c args applicable s =
     replay (\<lambda>a. runAnalyzer c (a_id a) (request_of args)) applicable s"

definition wait_answers ::
  "'s CortexClient \<Rightarrow> Args \<Rightarrow> Submitted list \<Rightarrow> 's \<Rightarrow> (reason + JobReport) list \<times> 's" where
  "wait_answers c args submitted s =
     replay (\<lambda>sub. waitAndGetReport c (s_jobId sub) (timeout args)) submitted s"

definition submission_of :: "Analyzer \<Rightarrow> reason + Job \<Rightarrow> Submitted settled" where
  "submission_of a answer =
     (case answer of
        Inl e \<Rightarrow> rejected e
      | Inr job \<Rightarrow> fulfilled \<lparr>s_analyzer = a_name a, s_jobId = j_id job\<rparr>)"

definition completion_of :: "Submitted \<Rightarrow> reason + JobReport \<Rightarrow> (string \<times> JobReport) settled" where
  "completion_of sub answer =
     (case answer of
        Inl e \<Rightarrow> rejected e
      | Inr report \<Rightarrow> fulfilled (s_analyzer sub, report))"

definition reported_errors :: "AggregateReport \<Rightarrow> SubmissionError list" where
  "reported_errors r = (case submissionErrors r of None \<Rightarrow> [] | Some fs \<Rightarrow> fs)"

section \<open>Test doubles (tests/client.test.ts)\<close>

text \<open>
  A client that answers from a script: the directory lookup with a fixed answer, each
  \<^verbatim>\<open>runAnalyzer\<close> and each \<^verbatim>\<open>waitAndGetReport\<close> with the next answer of its list, as the
  counting mocks of the test suite do. Its state is what is left of the two lists.
\<close>

definition mock_client ::
  "(reason + Analyzer list) \<Rightarrow> ((reason + Job) list \<times> (reason + JobReport) list) CortexClient" where
  "mock_client listed =
     \<lparr>listAnalyzers = (\<lambda>s. (listed, s)),
      runAnalyzer = (\<lambda>aid req s.
        case fst s of
          [] \<Rightarrow> (Inl (ErrorObj ''no mock response''), s)
        | r # rs \<Rightarrow> (r, (rs, snd s))),
      waitAndGetReport = (\<lambda>jid tmo s.
        case snd s of
          [] \<Rightarrow> (Inl (ErrorObj ''no mock response''), s)
        | r # rs \<Rightarrow> (r, (fst s, rs)))\<rparr>"

definition mockAnalyzers :: "Analyzer list" where
  "mockAnalyzers =
     [\<lparr>a_id = ''VirusTotal_GetReport_3_1'', a_name = ''VirusTotal_GetReport'', a_version = ''3.1'',
       a_description = ''Get VirusTotal report'',
       a_dataTypeList = [''hash'', ''ip'', ''domain'', ''url'']\<rparr>,
      \<lparr>a_id = ''AbuseIPDB_1_0'', a_name = ''AbuseIPDB'', a_version = ''1.0'',
       a_description = ''Check IP reputation on AbuseIPDB'', a_dataTypeList = [''ip'']\<rparr>,
      \<lparr>a_id = ''URLhaus_2_0'', a_name = ''URLhaus'', a_version = ''2.0'',
       a_description = ''Check URL against URLhaus database'',
       a_dataTypeList = [''url'', ''domain'']\<rparr>]"

definition ip_args :: Args where
  "ip_args = \<lparr>dataType = ''ip'', data = ''8.8.8.8'', tlp = 2, pap = 2, timeout = 60\<rparr>"

definition registry_args :: Args where
  "registry_args =
     \<lparr>dataType = ''registry'',
      data = ''HKLM'' @ [CHR 0x5C] @ ''Software'' @ [CHR 0x5C] @ ''Malware'',
      tlp = 2, pap = 2, timeout = 60\<rparr>"

definition waiting_job :: "string \<Rightarrow> Job" where
  "waiting_job jid = \<lparr>j_id = jid, j_status = Waiting\<rparr>"

definition success_report :: "string \<Rightarrow> Taxonomy list \<Rightarrow> JobReport" where
  "success_report jid ts =
     \<lparr>j_id = jid, j_status = Success,
      j_report = Some \<lparr>b_summary = Some \<lparr>s_taxonomies = Some ts\<rparr>\<rparr>\<rparr>"

definition vtReport :: JobReport where
  "vtReport =
     success_report ''job_1''
       [\<lparr>t_level = Malicious, t_namespace = ''VT'', t_predicate = ''GetReport'',
         t_value = ''5/87''\<rparr>]"

definition abuseReport :: JobReport where
  "abuseReport =
     success_report ''job_2''
       [\<lparr>t_level = Suspicious, t_namespace = ''AbuseIPDB'', t_predicate = ''Score'',
         t_value = ''75%''\<rparr>]"

definition safe_report :: JobReport where
  "safe_report =
     success_report ''job_1''
       [\<lparr>t_level = Safe, t_namespace = ''VT'', t_predicate = ''GetReport'',
         t_value = ''0/87''\<rparr>]"

text \<open>"should throw on 401 unauthorized": the server answers 401 with the body \<open>Unauthorized\<close>.\<close>

definition unauthorized :: reason where
  "unauthorized = api_error 401 [] ''Unauthorized''"

text \<open>
  "should run all applicable analyzers and aggregate results": both analyzers for
  \<open>ip\<close> accept the observable and complete.
\<close>

definition both_complete_world :: "((reason + Job) list \<times> (reason + JobReport) list) world" where
  "both_complete_world =
     (([Inr (waiting_job ''job_1''), Inr (waiting_job ''job_2'')],
       [Inr vtReport, Inr abuseReport]), [])"

definition both_complete_run ::
  "((reason + Job) list \<times> (reason + JobReport) list) Run" where
  "both_complete_run =
     try_block (mock_client (Inr mockAnalyzers)) ip_args both_complete_world"

definition both_complete_report :: AggregateReport where
  "both_complete_report =
     \<lparr>observable = \<lparr>o_dataType = ''ip'', o_data = ''8.8.8.8''\<rparr>,
      analyzersRun = 2, analyzersFailed = 0,
      summary = \<lparr>c_malicious = 1, c_suspicious = 1, c_info = 0, c_safe = 0\<rparr>,
      results =
        [\<lparr>r_analyzer = ''VirusTotal_GetReport'', r_status = ''Success'',
          r_taxonomies = [''[malicious] VT:GetReport = 5/87'']\<rparr>,
         \<lparr>r_analyzer = ''AbuseIPDB'', r_status = ''Success'',
          r_taxonomies = [''[suspicious] AbuseIPDB:Score = 75%'']\<rparr>],
      submissionErrors = None\<rparr>"

text \<open>
  "should handle partial failures gracefully": the first submission is accepted, the
  second is rejected.
\<close>

definition partial_failure_world ::
  "((reason + Job) list \<times> (reason + JobReport) list) world" where
  "partial_failure_world =
     (([Inr (waiting_job ''job_1''), Inl (ErrorObj ''Analyzer rate limited'')],
       [Inr safe_report]), [])"

definition partial_failure_run ::
  "((reason + Job) list \<times> (reason + JobReport) list) Run" where
  "partial_failure_run =
     try_block (mock_client (Inr mockAnalyzers)) ip_args partial_failure_world"

definition partial_failure_report :: AggregateReport where
  "partial_failure_report =
     \<lparr>observable = \<lparr>o_dataType = ''ip'', o_data = ''8.8.8.8''\<rparr>,
      analyzersRun = 1, analyzersFailed = 1,
      summary = \<lparr>c_malicious = 0, c_suspicious = 0, c_info = 0, c_safe = 1\<rparr>,
      results =
        [\<lparr>r_analyzer = ''VirusTotal_GetReport'', r_status = ''Success'',
          r_taxonomies = [''[safe] VT:GetReport = 0/87'']\<rparr>],
      submissionErrors =
        Some [\<lparr>f_analyzer = ''VirusTotal_GetReport'', f_error = ''Analyzer rate limited''\<rparr>]\<rparr>"

text \<open>
  Both submissions are accepted; the first wait fails, the second completes with a
  report that has no \<^verbatim>\<open>report\<close> field.
\<close>

definition degraded_world :: "((reason + Job) list \<times> (reason + JobReport) list) world" where
  "degraded_world =
     (([Inr (waiting_job ''job_1''), Inr (waiting_job ''job_2'')],
       [Inl (ErrorObj ''Cortex API timeout after 30000ms''),
        Inr \<lparr>j_id = ''job_2'', j_status = Failure, j_report = None\<rparr>]), [])"

definition degraded_run ::
  "((reason + Job) list \<times> (reason + JobReport) list) Run" where
  "degraded_run =
     try_block (mock_client (Inr mockAnalyzers)) ip_args degraded_world"

definition degraded_report :: AggregateReport where
  "degraded_report =
     \<lparr>observable = \<lparr>o_dataType = ''ip'', o_data = ''8.8.8.8''\<rparr>,
      analyzersRun = 2, analyzersFailed = 0,
      summary = \<lparr>c_malicious = 0, c_suspicious = 0, c_info = 0, c_safe = 0\<rparr>,
      results =
        [\<lparr>r_analyzer = ''VirusTotal_GetReport'', r_status = ''Error'',
          r_taxonomies = [''Error: Cortex API timeout after 30000ms'']\<rparr>,
         \<lparr>r_analyzer = ''AbuseIPDB'', r_status = ''Failure'', r_taxonomies = []\<rparr>],
      submissionErrors = None\<rparr>"

text \<open>
  Both submissions are rejected, one of them with a value that is not an \<^verbatim>\<open>Error\<close>.
\<close>

definition all_rejected_world ::
  "((reason + Job) list \<times> (reason + JobReport) list) world" where
  "all_rejected_world =
     (([Inl (ErrorObj ''Analyzer rate limited''), Inl (NonError ''socket hang up'')], []), [])"

definition all_rejected_run ::
  "((reason + Job) list \<times> (reason + JobReport) list) Run" where
  "all_rejected_run =
     try_block (mock_client (Inr mockAnalyzers)) ip_args all_rejected_world"

definition all_rejected_report :: AggregateReport where
  "all_rejected_report =
     \<lparr>observable = \<lparr>o_dataType = ''ip'', o_data = ''8.8.8.8''\<rparr>,
      analyzersRun = 0, analyzersFailed = 2,
      summary = \<lparr>c_malicious = 0, c_suspicious = 0, c_info = 0, c_safe = 0\<rparr>,
      results = [],
      submissionErrors =
        Some [\<lparr>f_analyzer = ''VirusTotal_GetReport'', f_error = ''Analyzer rate limited''\<rparr>,
              \<lparr>f_analyzer = ''AbuseIPDB'', f_error = ''socket hang up''\<rparr>]\<rparr>"

section \<open>The messages of the client\<close>

lemma unauthorized_message:
  "reason_text unauthorized =
     ''Cortex API error: Invalid API key or unauthorized access - Unauthorized''"
  by (simp add: unauthorized_def api_error_def status_message_def)

lemma unlisted_status_message:
  "api_error 503 ''Service Unavailable'' [] =
     ErrorObj ''Cortex API error: HTTP 503: Service Unavailable''"
  by (simp add: api_error_def status_message_def
        decimal.simps [of 503] decimal.simps [of 50] decimal.simps [of 5])

section \<open>Arrays and promises\<close>

lemma length_map_async: "length (fst (map_async f xs w)) = length xs"
  by (induction xs arbitrary: w) (simp_all add: split_beta)

lemma map_async_all2:
  assumes "\<And>x w. P x (fst (f x w))"
  shows "list_all2 P xs (fst (map_async f xs w))"
  using assms by (induction xs arbitrary: w) (simp_all add: split_beta)

lemma map_async_calls:
  assumes "\<And>x w. snd (snd (f x w)) = snd w @ [g x]"
  shows "snd (snd (map_async f xs w)) = snd w @ map g xs"
  using assms by (induction xs arbitrary: w) (simp_all add: split_beta)

lemma length_allSettled: "length (allSettled ps) = length ps"
  by (simp add: allSettled_def)

lemma map_snd_allSettled: "map snd (allSettled ps) = ps"
  by (simp add: allSettled_def)

lemma map_fst_allSettled: "map fst (allSettled ps) = [0..<length ps]"
  by (simp add: allSettled_def)

lemma nth_allSettled: "i < length ps \<Longrightarrow> allSettled ps ! i = (i, ps ! i)"
  by (simp add: allSettled_def)

text \<open>
  The order in which the promises settle does not show in the array.
\<close>

lemma length_settle_in: "length (settle_in order ps slots) = length slots"
  by (induction order arbitrary: slots) simp_all

lemma nth_settle_in:
  "i < length slots \<Longrightarrow>
   settle_in order ps slots ! i = (if i \<in> set order then Some (i, ps ! i) else slots ! i)"
proof (induction order arbitrary: slots)
  case Nil
  then show ?case by simp
next
  case (Cons k ks)
  then show ?case by (cases "i = k") simp_all
qed

lemma settle_order_irrelevant:
  assumes "set order = {0..<length ps}"
  shows "settle_in order ps (replicate (length ps) None) = map Some (allSettled ps)"
proof (rule nth_equalityI)
  show "length (settle_in order ps (replicate (length ps) None)) = length (map Some (allSettled ps))"
    by (simp add: length_settle_in length_allSettled)
next
  fix i assume "i < length (settle_in order ps (replicate (length ps) None))"
  then have i: "i < length ps" by (simp add: length_settle_in)
  then show "settle_in order ps (replicate (length ps) None) ! i = map Some (allSettled ps) ! i"
    using assms by (simp add: nth_settle_in nth_allSettled length_allSettled)
qed

lemma length_fulfilled_values:
  "length (fulfilled_values rs) = length (filter is_fulfilled (map snd rs))"
  by (induction rs rule: fulfilled_values.induct) auto

lemma length_rejected_reasons:
  "length (rejected_reasons rs) = length (filter (\<lambda>p. \<not> is_fulfilled p) (map snd rs))"
  by (induction rs rule: rejected_reasons.induct) auto

lemma fulfilled_plus_rejected:
  "length (fulfilled_values rs) + length (rejected_reasons rs) = length rs"
  by (induction rs rule: fulfilled_values.induct) auto

lemma fulfilled_values_append:
  "fulfilled_values (xs @ ys) = fulfilled_values xs @ fulfilled_values ys"
  by (induction xs rule: fulfilled_values.induct) simp_all

lemma fulfilled_values_zip:
  "length ks = length ps \<Longrightarrow> fulfilled_values (zip ks ps) = List.map_filter value_of ps"
proof (induction ks ps rule: list_induct2)
  case Nil
  then show ?case by (simp add: map_filter_simps)
next
  case (Cons k ks p ps)
  then show ?case by (cases p) (simp_all add: map_filter_simps)
qed

lemma sum_over_completed:
  "sum_list (map (\<lambda>v. f (snd v)) (fulfilled_values rs)) =
   sum_list (map (\<lambda>p. case snd p of fulfilled v \<Rightarrow> f (snd v) | rejected e \<Rightarrow> 0) rs)"
  by (induction rs rule: fulfilled_values.induct) simp_all

text \<open>
  Every result of \<open>allSettled\<close> is found at its own position.
\<close>

lemma indexOf_distinct:
  "distinct (map fst rs) \<Longrightarrow> i < length rs \<Longrightarrow> indexOf rs (rs ! i) = int i"
proof (induction rs arbitrary: i)
  case Nil
  then show ?case by simp
next
  case (Cons x xs)
  show ?case
  proof (cases i)
    case 0
    then show ?thesis by simp
  next
    case (Suc j)
    have j: "j < length xs" using Cons.prems Suc by simp
    have "fst (xs ! j) \<in> set (map fst xs)"
      using j by (metis length_map nth_map nth_mem)
    moreover have "fst x \<notin> set (map fst xs)" using Cons.prems(1) by simp
    ultimately have "fst x \<noteq> fst (xs ! j)" by metis
    moreover have "indexOf xs (xs ! j) = int j" using Cons.IH [of j] Cons.prems(1) j by simp
    ultimately show ?thesis using Suc by (simp add: Let_def)
  qed
qed

lemma indexOf_allSettled:
  "i < length ps \<Longrightarrow> indexOf (allSettled ps) (allSettled ps ! i) = int i"
  by (rule indexOf_distinct) (simp_all add: map_fst_allSettled length_allSettled)

section \<open>The submission stage\<close>

lemma submit_one_name: "names_from a (fst (submit_one c args a w))"
  by (simp add: submit_one_def names_from_def split_beta Let_def split: sum.splits)

lemma submit_one_calls:
  "snd (snd (submit_one c args a w)) = snd w @ [RunAnalyzer (a_id a) (request_of args)]"
  by (simp add: submit_one_def split_beta Let_def split: sum.splits)

lemma submitted_names:
  assumes "list_all2 names_from applicable ps"
  shows "map s_analyzer (fulfilled_values (allSettled ps)) =
           map (a_name \<circ> fst) (filter (is_fulfilled \<circ> snd) (zip applicable ps))"
proof -
  have "map s_analyzer (List.map_filter value_of ps) =
      map (a_name \<circ> fst) (filter (is_fulfilled \<circ> snd) (zip applicable ps))"
    using assms
  proof (induction applicable ps rule: list_all2_induct)
    case Nil
    then show ?case by (simp add: map_filter_simps)
  next
    case (Cons a applicable p ps)
    then show ?case by (cases p) (simp_all add: map_filter_simps names_from_def)
  qed
  then show ?thesis by (simp add: allSettled_def fulfilled_values_zip)
qed

text \<open>
  There are at most as many rejections as applicable analyzers, so \<open>applicable[i]\<close> is
  never \<^verbatim>\<open>undefined\<close> and the mapping does not throw.
\<close>

lemma failed_map_ok:
  "i + length es \<le> length applicable \<Longrightarrow>
   failed_map applicable i es =
     Inr (map2 (\<lambda>a e. \<lparr>f_analyzer = a_name a, f_error = reason_text e\<rparr>)
            (take (length es) (drop i applicable)) es)"
proof (induction es arbitrary: i)
  case Nil
  then show ?case by simp
next
  case (Cons e es)
  have i: "i < length applicable" using Cons.prems by simp
  have step: "Suc i + length es \<le> length applicable" using Cons.prems by simp
  have "drop i applicable = applicable ! i # drop (Suc i) applicable"
    using i by (simp add: Cons_nth_drop_Suc)
  then show ?case
    using Cons.IH [OF step] i by (simp add: element_at_def)
qed

lemma failed_map_never_throws:
  assumes "length ps = length applicable"
  shows "failed_map applicable 0 (rejected_reasons (allSettled ps)) =
           Inr (failed_entries applicable (rejected_reasons (allSettled ps)))"
proof -
  have "length (rejected_reasons (allSettled ps)) \<le> length (allSettled ps)"
    using fulfilled_plus_rejected [of "allSettled ps"] by simp
  then have "0 + length (rejected_reasons (allSettled ps)) \<le> length applicable"
    using assms by (simp add: length_allSettled)
  from failed_map_ok [OF this] show ?thesis by (simp add: failed_entries_def)
qed

lemma length_failed_entries:
  "length es \<le> length applicable \<Longrightarrow> length (failed_entries applicable es) = length es"
  by (simp add: failed_entries_def)

lemma failed_entries_errors:
  "length es \<le> length applicable \<Longrightarrow>
   map f_error (failed_entries applicable es) = map reason_text es"
  by (intro nth_equalityI) (simp_all add: failed_entries_def)

lemma failed_entries_names:
  "length es \<le> length applicable \<Longrightarrow>
   map f_analyzer (failed_entries applicable es) = take (length es) (map a_name applicable)"
  by (intro nth_equalityI) (simp_all add: failed_entries_def)

section \<open>The completion stage and the loop\<close>

lemma wait_one_name: "names_agree sub (fst (wait_one c tmo sub w))"
  by (simp add: wait_one_def names_agree_def split_beta Let_def split: sum.splits)

lemma wait_one_calls:
  "snd (snd (wait_one c tmo sub w)) = snd w @ [WaitAndGetReport (s_jobId sub) tmo]"
  by (simp add: wait_one_def split_beta Let_def split: sum.splits)

text \<open>
  The loop, with its \<^verbatim>\<open>indexOf\<close> lookup, pushes the summary record of every settled wait
  under the name of the submitted job at the same position.
\<close>

lemma aggregate_loop_results:
  assumes "\<And>r. r \<in> set rs \<Longrightarrow> \<exists>i < length reps. r = reps ! i \<and> i < length sub \<and>
              names_agree (sub ! i) (snd r) \<and> indexOf reps r = int i
              \<and> entry r = summary_record (s_analyzer (sub ! i)) (snd r)"
  shows "agg_results (aggregate_loop sub reps rs acc) = agg_results acc @ map entry rs"
  using assms
proof (induction rs arbitrary: acc)
  case Nil
  then show ?case by simp
next
  case (Cons r rs)
  obtain i where i: "i < length reps" "r = reps ! i" "i < length sub"
      "names_agree (sub ! i) (snd r)" "indexOf reps r = int i"
      "entry r = summary_record (s_analyzer (sub ! i)) (snd r)"
    using Cons.prems [of r] by auto
  have "agg_results (aggregate_step sub reps r acc) = agg_results acc @ [entry r]"
    using i(3-6)
    by (auto simp: aggregate_step_def summary_record_def names_agree_def element_at_def Let_def
             split: settled.splits)
  moreover have "agg_results (aggregate_loop sub reps rs (aggregate_step sub reps r acc)) =
      agg_results (aggregate_step sub reps r acc) @ map entry rs"
    using Cons.IH [of "aggregate_step sub reps r acc"] Cons.prems by simp
  ultimately show ?case by simp
qed

lemma aggregate_results:
  assumes "list_all2 names_agree sub qs"
  shows "agg_results (aggregate sub (allSettled qs)) =
           map2 summary_record (map s_analyzer sub) qs"
proof -
  have len: "length sub = length qs" using assms by (rule list_all2_lengthD)
  let ?entry = "\<lambda>r. summary_record (s_analyzer (sub ! fst r)) (snd r)"
  have "agg_results (aggregate_loop sub (allSettled qs) (allSettled qs)
          \<lparr>allTaxonomies = [], agg_results = []\<rparr>) = [] @ map ?entry (allSettled qs)"
  proof (subst aggregate_loop_results [where entry = ?entry])
    fix r assume "r \<in> set (allSettled qs)"
    then obtain i where i: "i < length qs" "r = allSettled qs ! i"
      by (metis in_set_conv_nth length_allSettled)
    have "names_agree (sub ! i) (qs ! i)" using assms i(1) by (simp add: list_all2_nthD2)
    moreover have "indexOf (allSettled qs) r = int i"
      using indexOf_allSettled [OF i(1)] i(2) by simp
    ultimately show "\<exists>i<length (allSettled qs). r = allSettled qs ! i \<and> i < length sub \<and>
        names_agree (sub ! i) (snd r) \<and> indexOf (allSettled qs) r = int i \<and>
        ?entry r = summary_record (s_analyzer (sub ! i)) (snd r)"
      using i len by (intro exI [of _ i]) (simp add: nth_allSettled length_allSettled)
  qed simp
  moreover have "map ?entry (allSettled qs) = map2 summary_record (map s_analyzer sub) qs"
    using len by (intro nth_equalityI) (simp_all add: length_allSettled nth_allSettled)
  ultimately show ?thesis by (simp add: aggregate_def)
qed

lemma aggregate_loop_taxonomies:
  "allTaxonomies (aggregate_loop sub reps rs acc) =
     allTaxonomies acc @
       concat (map (\<lambda>r. case snd r of fulfilled (a, report) \<Rightarrow> map (tag a) (taxonomies_of report)
                                     | rejected e \<Rightarrow> []) rs)"
proof (induction rs arbitrary: acc)
  case Nil
  then show ?case by simp
next
  case (Cons r rs)
  show ?case
    by (cases "snd r") (auto simp: Cons.IH aggregate_step_def Let_def)
qed

lemma aggregate_taxonomies:
  "map Taxonomy.truncate (allTaxonomies (aggregate sub (allSettled qs))) =
     concat (map findings_of qs)"
proof -
  have "map Taxonomy.truncate (concat (map (\<lambda>r. case snd r of
            fulfilled (a, report) \<Rightarrow> map (tag a) (taxonomies_of report) | rejected e \<Rightarrow> []) rs)) =
        concat (map findings_of (map snd rs))" for rs :: "(string \<times> JobReport) settled_result list"
    by (induction rs)
       (auto simp: findings_of_def tag_def Taxonomy.truncate_def map_idI split: settled.splits)
  from this [of "allSettled qs"] show ?thesis
    by (simp add: aggregate_def aggregate_loop_taxonomies map_snd_allSettled)
qed

lemma level_str_inj:
  "level_str l = ''malicious'' \<longleftrightarrow> l = Malicious"
  "level_str l = ''suspicious'' \<longleftrightarrow> l = Suspicious"
  "level_str l = ''info'' \<longleftrightarrow> l = Info"
  "level_str l = ''safe'' \<longleftrightarrow> l = Safe"
  by (cases l; simp)+

lemma level_count_levelCounts:
  "level_count (levelCounts ts) l = length (filter (\<lambda>t. t_level t = l) ts)"
  by (cases l) (simp_all add: level_count_def levelCounts_def level_str_inj)

lemma tagged_tally:
  "length (filter (\<lambda>t. t_level t = l) (allTaxonomies (aggregate sub (allSettled qs)))) =
   length (filter (\<lambda>t. t_level t = l) (concat (map findings_of qs)))"
proof -
  have "length (filter (\<lambda>t. t_level t = l) (map Taxonomy.truncate ts)) =
        length (filter (\<lambda>t. t_level t = l) ts)" for ts :: "TaggedTaxonomy list"
    by (induction ts) (simp_all add: Taxonomy.truncate_def)
  from this [of "allTaxonomies (aggregate sub (allSettled qs))"] show ?thesis
    by (simp add: aggregate_taxonomies)
qed

lemma findings_of_completed:
  "length (filter P (concat (map findings_of (map snd rs)))) =
   sum_list (map (\<lambda>v. length (filter P (taxonomies_of (snd v)))) (fulfilled_values rs))"
  by (induction rs rule: fulfilled_values.induct) (simp_all add: findings_of_def split_beta)

lemma status_str_not_Error: "status_str st \<noteq> ''Error''"
  by (cases st) simp_all

section \<open>The serialized report\<close>

lemma stringify_js_report: "stringify (js_report r) = Some (Obj (json_report r))"
  by (cases "submissionErrors r")
     (simp_all add: js_report_def json_report_def js_counts_def js_result_def js_failed_def
        js_strings_def json_result_def json_failed_def comp_def)

lemma json_report_keys:
  "set (map fst (json_report r)) \<subseteq>
     {''observable'', ''analyzersRun'', ''analyzersFailed'', ''summary'', ''results'',
      ''submissionErrors''}"
  by (cases "submissionErrors r") (simp_all add: json_report_def)

lemma json_report_results:
  "map_of (json_report r) ''results'' = Some (Arr (map json_result (results r)))"
  by (simp add: json_report_def)

section \<open>The three ways a run ends\<close>

lemma try_block_listing_fails:
  assumes "listAnalyzers c (fst w) = (Inl e, s1)"
  shows "try_block c args w =
           \<lparr>run_outcome = Thrown e, run_applicable = [], run_submissions = [],
            run_submitted = [], run_failed = [], run_reports = [],
            run_world = (s1, snd w @ [ListAnalyzers])\<rparr>"
  using assms by (simp add: try_block_def call_listAnalyzers_def)

lemma try_block_none_applicable:
  assumes "listAnalyzers c (fst w) = (Inr allAnalyzers, s1)"
      and "applicable_of (dataType args) allAnalyzers = []"
  shows "try_block c args w =
           \<lparr>run_outcome = NoAnalyzers, run_applicable = [], run_submissions = [],
            run_submitted = [], run_failed = [], run_reports = [],
            run_world = (s1, snd w @ [ListAnalyzers])\<rparr>"
  using assms by (simp add: try_block_def call_listAnalyzers_def)

lemma try_block_report:
  assumes "listAnalyzers c (fst w) = (Inr allAnalyzers, s1)"
      and "applicable_of (dataType args) allAnalyzers = applicable"
      and "applicable \<noteq> []"
      and "map_async (submit_one c args) applicable (s1, snd w @ [ListAnalyzers]) = (ps, w2)"
      and "map_async (wait_one c (timeout args)) (fulfilled_values (allSettled ps)) w2 = (qs, w3)"
  shows "try_block c args w =
           \<lparr>run_outcome =
              Report (build_report args (fulfilled_values (allSettled ps))
                        (failed_entries applicable (rejected_reasons (allSettled ps)))
                        (aggregate (fulfilled_values (allSettled ps)) (allSettled qs))),
            run_applicable = applicable, run_submissions = allSettled ps,
            run_submitted = fulfilled_values (allSettled ps),
            run_failed = failed_entries applicable (rejected_reasons (allSettled ps)),
            run_reports = allSettled qs, run_world = w3\<rparr>"
proof -
  have "length ps = length applicable"
    using length_map_async [of "submit_one c args" applicable "(s1, snd w @ [ListAnalyzers])"]
      assms(4) by simp
  from failed_map_never_throws [OF this] show ?thesis
    using assms by (simp add: try_block_def call_listAnalyzers_def Let_def)
qed

lemma try_block_inversion:
  assumes "run_outcome (try_block c args w) = Report r"
  shows "\<exists>allAnalyzers s1 ps w2 qs w3.
           listAnalyzers c (fst w) = (Inr allAnalyzers, s1) \<and>
           applicable_of (dataType args) allAnalyzers \<noteq> [] \<and>
           map_async (submit_one c args) (applicable_of (dataType args) allAnalyzers)
             (s1, snd w @ [ListAnalyzers]) = (ps, w2) \<and>
           map_async (wait_one c (timeout args)) (fulfilled_values (allSettled ps)) w2 = (qs, w3)"
proof -
  obtain res s1 where l: "listAnalyzers c (fst w) = (res, s1)" by (cases "listAnalyzers c (fst w)")
  show ?thesis
  proof (cases res)
    case (Inl e)
    then show ?thesis using assms try_block_listing_fails [of c w e s1 args] l by simp
  next
    case (Inr allAnalyzers)
    show ?thesis
    proof (cases "applicable_of (dataType args) allAnalyzers = []")
      case True
      then show ?thesis
        using assms try_block_none_applicable [of c w allAnalyzers s1 args] l Inr by simp
    next
      case False
      obtain ps w2 where "map_async (submit_one c args) (applicable_of (dataType args) allAnalyzers)
             (s1, snd w @ [ListAnalyzers]) = (ps, w2)" by (metis surj_pair)
      moreover obtain qs w3 where
        "map_async (wait_one c (timeout args)) (fulfilled_values (allSettled ps)) w2 = (qs, w3)"
        by (metis surj_pair)
      ultimately show ?thesis using False l Inr by blast
    qed
  qed
qed

lemma listing_ok_gives_report:
  assumes "listAnalyzers c (fst w) = (Inr allAnalyzers, s1)"
      and "applicable_of (dataType args) allAnalyzers \<noteq> []"
  shows "\<exists>r. run_outcome (try_block c args w) = Report r"
proof -
  obtain ps w2 where sub: "map_async (submit_one c args) (applicable_of (dataType args) allAnalyzers)
         (s1, snd w @ [ListAnalyzers]) = (ps, w2)" by (metis surj_pair)
  obtain qs w3 where wait:
    "map_async (wait_one c (timeout args)) (fulfilled_values (allSettled ps)) w2 = (qs, w3)"
    by (metis surj_pair)
  show ?thesis using try_block_report [OF assms(1) refl assms(2) sub wait] by simp
qed

lemma reports_only_in_report_run:
  assumes "run_reports (try_block c args w) \<noteq> []"
  shows "\<exists>r. run_outcome (try_block c args w) = Report r"
proof -
  obtain res s1 where l: "listAnalyzers c (fst w) = (res, s1)" by (cases "listAnalyzers c (fst w)")
  show ?thesis
  proof (cases res)
    case (Inl e)
    then show ?thesis using assms try_block_listing_fails [of c w e s1 args] l by simp
  next
    case (Inr allAnalyzers)
    show ?thesis
    proof (cases "applicable_of (dataType args) allAnalyzers = []")
      case True
      then show ?thesis
        using assms try_block_none_applicable [of c w allAnalyzers s1 args] l Inr by simp
    next
      case False
      obtain ps w2 where sub: "map_async (submit_one c args) (applicable_of (dataType args) allAnalyzers)
             (s1, snd w @ [ListAnalyzers]) = (ps, w2)" by (metis surj_pair)
      obtain qs w3 where wait:
        "map_async (wait_one c (timeout args)) (fulfilled_values (allSettled ps)) w2 = (qs, w3)"
        by (metis surj_pair)
      from l Inr have l': "listAnalyzers c (fst w) = (Inr allAnalyzers, s1)" by simp
      show ?thesis using try_block_report [OF l' refl False sub wait] by simp
    qed
  qed
qed

lemma handler_world: "snd (handler c args w) = run_world (try_block c args w)"
  by (simp add: handler_def Let_def)

lemma handler_report:
  assumes "try_block c args w = run" and "run_outcome run = Report r"
  shows "fst (handler c args w) =
           \<lparr>content_text = Json (Some (Obj (json_report r))), isError = None\<rparr>"
  using assms
  by (simp add: handler_def respond_def report_response_def stringify_js_report Let_def)

text \<open>
  What a run that ends in a report is made of.
\<close>

lemma report_run_anatomy:
  assumes "try_block c args w = run" and "run_outcome run = Report r"
  shows "\<exists>allAnalyzers s1 ps qs.
           listAnalyzers c (fst w) = (Inr allAnalyzers, s1) \<and>
           run_applicable run = applicable_of (dataType args) allAnalyzers \<and>
           run_applicable run \<noteq> [] \<and>
           run_submissions run = allSettled ps \<and>
           list_all2 names_from (run_applicable run) ps \<and>
           run_submitted run = fulfilled_values (allSettled ps) \<and>
           run_failed run = failed_entries (run_applicable run) (rejected_reasons (allSettled ps)) \<and>
           run_reports run = allSettled qs \<and>
           list_all2 names_agree (run_submitted run) qs \<and>
           r = build_report args (run_submitted run) (run_failed run)
                 (aggregate (run_submitted run) (allSettled qs)) \<and>
           snd (run_world run) =
             snd w @ [ListAnalyzers]
               @ map (\<lambda>a. RunAnalyzer (a_id a) (request_of args)) (run_applicable run)
               @ map (\<lambda>s. WaitAndGetReport (s_jobId s) (timeout args)) (run_submitted run)"
proof -
  from try_block_inversion [of c args w r] assms
  obtain allAnalyzers s1 ps w2 qs w3 where
    l: "listAnalyzers c (fst w) = (Inr allAnalyzers, s1)" and
    ne: "applicable_of (dataType args) allAnalyzers \<noteq> []" and
    sub: "map_async (submit_one c args) (applicable_of (dataType args) allAnalyzers)
             (s1, snd w @ [ListAnalyzers]) = (ps, w2)" and
    wait: "map_async (wait_one c (timeout args)) (fulfilled_values (allSettled ps)) w2 = (qs, w3)"
    by blast
  let ?app = "applicable_of (dataType args) allAnalyzers"
  let ?submitted = "fulfilled_values (allSettled ps)"
  note run = try_block_report [OF l refl ne sub wait]
  have ps: "list_all2 names_from ?app ps"
    using map_async_all2 [of names_from "submit_one c args" ?app "(s1, snd w @ [ListAnalyzers])",
        OF submit_one_name] sub by simp
  have qs: "list_all2 names_agree ?submitted qs"
    using map_async_all2 [of names_agree "wait_one c (timeout args)" ?submitted w2,
        OF wait_one_name] wait by simp
  have w2: "snd w2 = (snd w @ [ListAnalyzers])
      @ map (\<lambda>a. RunAnalyzer (a_id a) (request_of args)) ?app"
    using map_async_calls [of "submit_one c args" "\<lambda>a. RunAnalyzer (a_id a) (request_of args)"
        ?app "(s1, snd w @ [ListAnalyzers])", OF submit_one_calls] sub by simp
  have w3: "snd w3 = snd w2 @ map (\<lambda>s. WaitAndGetReport (s_jobId s) (timeout args)) ?submitted"
    using map_async_calls [of "wait_one c (timeout args)"
        "\<lambda>s. WaitAndGetReport (s_jobId s) (timeout args)" ?submitted w2, OF wait_one_calls] wait
    by simp
  show ?thesis
    using assms run l ne ps qs w2 w3
    by (intro exI [of _ allAnalyzers] exI [of _ s1] exI [of _ ps] exI [of _ qs]) auto
qed

lemma issued_by_report_run:
  assumes "try_block c args w = run" and "run_outcome run = Report r"
  shows "issued w run =
           ListAnalyzers
             # map (\<lambda>a. RunAnalyzer (a_id a) (request_of args)) (run_applicable run)
             @ map (\<lambda>s. WaitAndGetReport (s_jobId s) (timeout args)) (run_submitted run)"
proof -
  from report_run_anatomy [OF assms] have
    "snd (run_world run) =
       snd w @ [ListAnalyzers]
         @ map (\<lambda>a. RunAnalyzer (a_id a) (request_of args)) (run_applicable run)
         @ map (\<lambda>s. WaitAndGetReport (s_jobId s) (timeout args)) (run_submitted run)"
    by blast
  then show ?thesis by (simp add: issued_def)
qed

lemma length_run_failed:
  assumes "try_block c args w = run" and "run_outcome run = Report r"
  shows "length (run_failed run) = length (rejected_reasons (run_submissions run))"
proof -
  from report_run_anatomy [OF assms] obtain ps where
    subs: "run_submissions run = allSettled ps" and
    names: "list_all2 names_from (run_applicable run) ps" and
    failed: "run_failed run = failed_entries (run_applicable run) (rejected_reasons (allSettled ps))"
    by blast
  have "length (rejected_reasons (allSettled ps)) \<le> length (allSettled ps)"
    using fulfilled_plus_rejected [of "allSettled ps"] by simp
  then have "length (rejected_reasons (allSettled ps)) \<le> length (run_applicable run)"
    using list_all2_lengthD [OF names] by (simp add: length_allSettled)
  then show ?thesis using subs failed by (simp add: length_failed_entries)
qed

lemma submission_lists_of_run:
  assumes "try_block c args w = run" and "run_outcome run = Report r"
  shows "length (run_submissions run) = length (run_applicable run)"
    and "length (run_submitted run) + length (run_failed run) = length (run_applicable run)"
    and "map s_analyzer (run_submitted run) =
           map (a_name \<circ> fst)
             (filter (is_fulfilled \<circ> snd) (zip (run_applicable run) (map snd (run_submissions run))))"
    and "map f_error (run_failed run) = map reason_text (rejected_reasons (run_submissions run))"
    and "map f_analyzer (run_failed run) =
           take (length (run_failed run)) (map a_name (run_applicable run))"
proof -
  from report_run_anatomy [OF assms] obtain ps where
    subs: "run_submissions run = allSettled ps" and
    names: "list_all2 names_from (run_applicable run) ps" and
    submitted: "run_submitted run = fulfilled_values (allSettled ps)" and
    failed: "run_failed run = failed_entries (run_applicable run) (rejected_reasons (allSettled ps))"
    by blast
  have len: "length ps = length (run_applicable run)"
    using list_all2_lengthD [OF names] by simp
  show "length (run_submissions run) = length (run_applicable run)"
    using subs len by (simp add: length_allSettled)
  have le: "length (rejected_reasons (allSettled ps)) \<le> length (run_applicable run)"
    using fulfilled_plus_rejected [of "allSettled ps"] len by (simp add: length_allSettled)
  show "length (run_submitted run) + length (run_failed run) = length (run_applicable run)"
    using fulfilled_plus_rejected [of "allSettled ps"] submitted failed le len
    by (simp add: length_failed_entries length_allSettled)
  show "map s_analyzer (run_submitted run) =
      map (a_name \<circ> fst)
        (filter (is_fulfilled \<circ> snd) (zip (run_applicable run) (map snd (run_submissions run))))"
    using submitted_names [OF names] submitted subs by (simp add: map_snd_allSettled)
  show "map f_error (run_failed run) = map reason_text (rejected_reasons (run_submissions run))"
    using failed subs le by (simp add: failed_entries_errors)
  show "map f_analyzer (run_failed run) =
      take (length (run_failed run)) (map a_name (run_applicable run))"
    using failed le by (simp add: failed_entries_names length_failed_entries)
qed

lemma results_of_run:
  assumes "try_block c args w = run" and "run_outcome run = Report r"
  shows "results r =
           map2 summary_record (map s_analyzer (run_submitted run)) (map snd (run_reports run))"
    and "length (run_reports run) = length (run_submitted run)"
proof -
  from report_run_anatomy [OF assms] obtain qs where
    reps: "run_reports run = allSettled qs" and
    names: "list_all2 names_agree (run_submitted run) qs" and
    r: "r = build_report args (run_submitted run) (run_failed run)
              (aggregate (run_submitted run) (allSettled qs))"
    by blast
  show "results r =
      map2 summary_record (map s_analyzer (run_submitted run)) (map snd (run_reports run))"
    using r reps aggregate_results [OF names] by (simp add: build_report_def map_snd_allSettled)
  show "length (run_reports run) = length (run_submitted run)"
    using reps list_all2_lengthD [OF names] by (simp add: length_allSettled)
qed

lemma nth_results_of_run:
  assumes "try_block c args w = run" and "run_outcome run = Report r"
      and "i < length (run_reports run)"
  shows "results r ! i = summary_record (s_analyzer (run_submitted run ! i)) (snd (run_reports run ! i))"
  using results_of_run [OF assms(1,2)] assms(3) by simp

lemma level_count_of_run:
  assumes "try_block c args w = run" and "run_outcome run = Report r"
  shows "level_count (summary r) l =
           length (filter (\<lambda>t. t_level t = l)
             (concat (map findings_of (map snd (run_reports run)))))"
proof -
  from report_run_anatomy [OF assms] obtain qs where
    reps: "run_reports run = allSettled qs" and
    r: "r = build_report args (run_submitted run) (run_failed run)
              (aggregate (run_submitted run) (allSettled qs))"
    by blast
  have "level_count (summary r) l =
      length (filter (\<lambda>t. t_level t = l) (concat (map findings_of qs)))"
    using r by (simp add: build_report_def level_count_levelCounts tagged_tally)
  then show ?thesis using reps by (simp add: map_snd_allSettled)
qed

section \<open>The answers of the client\<close>

text \<open>
  Each stage settles its promises from the answers of the client, one call per element,
  in order.
\<close>

lemma length_replay: "length (fst (replay f ks s)) = length ks"
  by (induction ks arbitrary: s) (simp_all add: split_beta)

lemma submit_all_replay:
  "map_async (submit_one c args) xs w =
     (map2 submission_of xs (fst (submit_answers c args xs (fst w))),
      (snd (submit_answers c args xs (fst w)),
       snd w @ map (\<lambda>a. RunAnalyzer (a_id a) (request_of args)) xs))"
proof (induction xs arbitrary: w)
  case Nil
  then show ?case by (simp add: submit_answers_def)
next
  case (Cons x xs)
  show ?case
    using Cons.IH
    by (simp add: submit_answers_def submit_one_def submission_of_def split_beta Let_def
             split: sum.splits)
qed

lemma wait_all_replay:
  "map_async (wait_one c (timeout args)) xs w =
     (map2 completion_of xs (fst (wait_answers c args xs (fst w))),
      (snd (wait_answers c args xs (fst w)),
       snd w @ map (\<lambda>s. WaitAndGetReport (s_jobId s) (timeout args)) xs))"
proof (induction xs arbitrary: w)
  case Nil
  then show ?case by (simp add: wait_answers_def)
next
  case (Cons x xs)
  show ?case
    using Cons.IH
    by (simp add: wait_answers_def wait_one_def completion_of_def split_beta Let_def
             split: sum.splits)
qed

lemma rejected_reasons_submissions:
  "length xs = length answers \<Longrightarrow>
   rejected_reasons (zip ks (map2 submission_of xs answers)) =
     List.map_filter rejection (take (length ks) answers)"
proof (induction xs answers arbitrary: ks rule: list_induct2)
  case Nil
  then show ?case by (simp add: map_filter_simps)
next
  case (Cons x xs a answers)
  show ?case
  proof (cases ks)
    case Nil
    then show ?thesis by (simp add: map_filter_simps)
  next
    case (Cons k ks')
    then show ?thesis
      using Cons.IH [of ks'] by (cases a) (simp_all add: map_filter_simps submission_of_def)
  qed
qed

lemma rejected_reasons_settled:
  "rejected_reasons (allSettled (map2 submission_of xs (fst (submit_answers c args xs s)))) =
     List.map_filter rejection (fst (submit_answers c args xs s))"
proof -
  have len: "length xs = length (fst (submit_answers c args xs s))"
    by (simp add: submit_answers_def length_replay)
  from rejected_reasons_submissions [OF len,
      of "[0..<length (map2 submission_of xs (fst (submit_answers c args xs s)))]"]
  show ?thesis using len by (simp add: allSettled_def)
qed

lemma report_run_answers:
  assumes "listAnalyzers c (fst w) = (Inr allAnalyzers, s1)"
      and "applicable_of (dataType args) allAnalyzers \<noteq> []"
  shows "\<exists>r. run_outcome (try_block c args w) = Report r \<and>
           map snd (run_submissions (try_block c args w)) =
             map2 submission_of (applicable_of (dataType args) allAnalyzers)
               (fst (submit_answers c args (applicable_of (dataType args) allAnalyzers) s1)) \<and>
           map snd (run_reports (try_block c args w)) =
             map2 completion_of (run_submitted (try_block c args w))
               (fst (wait_answers c args (run_submitted (try_block c args w))
                  (snd (submit_answers c args (applicable_of (dataType args) allAnalyzers) s1))))"
proof -
  let ?app = "applicable_of (dataType args) allAnalyzers"
  let ?sa = "submit_answers c args ?app s1"
  let ?ps = "map2 submission_of ?app (fst ?sa)"
  let ?w2 = "(snd ?sa, (snd w @ [ListAnalyzers])
      @ map (\<lambda>a. RunAnalyzer (a_id a) (request_of args)) ?app)"
  let ?submitted = "fulfilled_values (allSettled ?ps)"
  let ?wa = "wait_answers c args ?submitted (snd ?sa)"
  let ?qs = "map2 completion_of ?submitted (fst ?wa)"
  let ?w3 = "(snd ?wa, snd ?w2 @ map (\<lambda>s. WaitAndGetReport (s_jobId s) (timeout args)) ?submitted)"
  have sub: "map_async (submit_one c args) ?app (s1, snd w @ [ListAnalyzers]) = (?ps, ?w2)"
    by (simp add: submit_all_replay)
  have wait: "map_async (wait_one c (timeout args)) ?submitted ?w2 = (?qs, ?w3)"
    by (simp add: wait_all_replay)
  note run = try_block_report [OF assms(1) refl assms(2) sub wait]
  show ?thesis
    unfolding run by (simp add: map_snd_allSettled)
qed

section \<open>The test runs, evaluated\<close>

lemma mock_listing:
  "listAnalyzers (mock_client listed) s = (listed, s)"
  by (simp add: mock_client_def)

lemma both_complete_outcome: "run_outcome both_complete_run = Report both_complete_report"
  by code_simp

lemma both_complete_submitted:
  "run_submitted both_complete_run =
     [\<lparr>s_analyzer = ''VirusTotal_GetReport'', s_jobId = ''job_1''\<rparr>,
      \<lparr>s_analyzer = ''AbuseIPDB'', s_jobId = ''job_2''\<rparr>]"
  by code_simp

lemma both_complete_failed: "run_failed both_complete_run = []"
  by code_simp

lemma partial_failure_outcome: "run_outcome partial_failure_run = Report partial_failure_report"
  by code_simp

lemma partial_failure_applicable:
  "map a_name (run_applicable partial_failure_run) = [''VirusTotal_GetReport'', ''AbuseIPDB'']"
  by code_simp

lemma partial_failure_submissions:
  "run_submissions partial_failure_run =
     [(0, fulfilled \<lparr>s_analyzer = ''VirusTotal_GetReport'', s_jobId = ''job_1''\<rparr>),
      (1, rejected (ErrorObj ''Analyzer rate limited''))]"
  by code_simp

lemma partial_failure_submitted:
  "run_submitted partial_failure_run =
     [\<lparr>s_analyzer = ''VirusTotal_GetReport'', s_jobId = ''job_1''\<rparr>]"
  by code_simp

lemma partial_failure_failed:
  "run_failed partial_failure_run =
     [\<lparr>f_analyzer = ''VirusTotal_GetReport'', f_error = ''Analyzer rate limited''\<rparr>]"
  by code_simp

lemma degraded_outcome: "run_outcome degraded_run = Report degraded_report"
  by code_simp

lemma degraded_submitted:
  "run_submitted degraded_run =
     [\<lparr>s_analyzer = ''VirusTotal_GetReport'', s_jobId = ''job_1''\<rparr>,
      \<lparr>s_analyzer = ''AbuseIPDB'', s_jobId = ''job_2''\<rparr>]"
  by code_simp

lemma degraded_reports:
  "run_reports degraded_run =
     [(0, rejected (ErrorObj ''Cortex API timeout after 30000ms'')),
      (1, fulfilled (''AbuseIPDB'', \<lparr>j_id = ''job_2'', j_status = Failure, j_report = None\<rparr>))]"
  by code_simp

lemma registry_none: "applicable_of (dataType registry_args) mockAnalyzers = []"
  by code_simp

lemma ip_some: "applicable_of (dataType ip_args) mockAnalyzers \<noteq> []"
  by code_simp

lemma all_rejected_outcome: "run_outcome all_rejected_run = Report all_rejected_report"
  by code_simp

lemma all_rejected_answers:
  "fst (submit_answers (mock_client (Inr mockAnalyzers)) ip_args
          (applicable_of (dataType ip_args) mockAnalyzers) (fst all_rejected_world)) =
     [Inl (ErrorObj ''Analyzer rate limited''), Inl (NonError ''socket hang up'')]"
  by code_simp

lemma degraded_answers:
  "fst (wait_answers (mock_client (Inr mockAnalyzers)) ip_args (run_submitted degraded_run)
          (snd (submit_answers (mock_client (Inr mockAnalyzers)) ip_args
                  (applicable_of (dataType ip_args) mockAnalyzers) (fst degraded_world)))) =
     [Inl (ErrorObj ''Cortex API timeout after 30000ms''),
      Inr \<lparr>j_id = ''job_2'', j_status = Failure, j_report = None\<rparr>]"
  by code_simp

section \<open>The claims\<close>

text \<open>
  C1. An entry of the rejections list does not always name the provider whose submission
  failed: the handler names the \<open>i\<close>-th rejection after the \<open>i\<close>-th applicable analyzer,
  \<open>i\<close> counting the rejections only. In the partial-failure test, where
  VirusTotal_GetReport accepts the observable and AbuseIPDB answers "Analyzer rate limited",
  the one rejection is AbuseIPDB's and the report lists it under the name
  VirusTotal_GetReport. The messages of the rejections and their order are kept
  (\<open>submission_lists_of_run\<close>).
\<close>

theorem rejection_named_after_another_provider:
  "map a_name (run_applicable partial_failure_run) = [''VirusTotal_GetReport'', ''AbuseIPDB''] \<and>
   map snd (run_submissions partial_failure_run) =
     [fulfilled \<lparr>s_analyzer = ''VirusTotal_GetReport'', s_jobId = ''job_1''\<rparr>,
      rejected (ErrorObj ''Analyzer rate limited'')] \<and>
   run_failed partial_failure_run =
     [\<lparr>f_analyzer = ''VirusTotal_GetReport'', f_error = ''Analyzer rate limited''\<rparr>] \<and>
   run_outcome partial_failure_run = Report partial_failure_report \<and>
   submissionErrors partial_failure_report =
     Some [\<lparr>f_analyzer = ''VirusTotal_GetReport'', f_error = ''Analyzer rate limited''\<rparr>]"
  by (simp add: partial_failure_applicable partial_failure_submissions partial_failure_failed
        partial_failure_outcome partial_failure_report_def)

text \<open>
  C2. An applicable provider does not always appear in exactly one of the two lists of
  the submission stage. The lengths of the two lists add up to the number of applicable
  providers, and the submitted list names the providers whose submission was fulfilled
  (\<open>submission_lists_of_run\<close>); but the names in the rejections list are those of the
  first applicable analyzers, so in the partial-failure test VirusTotal_GetReport stands in
  both lists and AbuseIPDB, whose submission was rejected, in neither.
\<close>

theorem provider_in_both_lists_or_neither:
  "map a_name (run_applicable partial_failure_run) = [''VirusTotal_GetReport'', ''AbuseIPDB''] \<and>
   map s_analyzer (run_submitted partial_failure_run) = [''VirusTotal_GetReport''] \<and>
   map f_analyzer (run_failed partial_failure_run) = [''VirusTotal_GetReport''] \<and>
   ''AbuseIPDB'' \<notin> set (map s_analyzer (run_submitted partial_failure_run)) \<and>
   ''AbuseIPDB'' \<notin> set (map f_analyzer (run_failed partial_failure_run))"
  by (simp add: partial_failure_applicable partial_failure_submitted partial_failure_failed)

text \<open>
  C3. In a run that ends in a report there is one settled wait per submitted job and one
  entry of \<open>results\<close> per submitted job; the \<open>i\<close>-th entry is the summary of the
  \<open>i\<close>-th wait under the name of the \<open>i\<close>-th submitted job, so the names in \<open>results\<close> are
  the names in the submitted list, in its order. The waits the run issues are exactly one
  per submitted job, in that order. In whatever order the waits settle, the array of settled
  results is the same.
\<close>

theorem results_follow_submitted:
  assumes "try_block c args w = run" and "run_outcome run = Report r"
  shows "length (run_reports run) = length (run_submitted run) \<and>
         length (results r) = length (run_submitted run) \<and>
         map r_analyzer (results r) = map s_analyzer (run_submitted run) \<and>
         (\<forall>i < length (run_submitted run).
            results r ! i =
              summary_record (s_analyzer (run_submitted run ! i)) (snd (run_reports run ! i))) \<and>
         filter is_wait (issued w run) =
           map (\<lambda>s. WaitAndGetReport (s_jobId s) (timeout args)) (run_submitted run) \<and>
         (\<forall>order. set order = {0..<length (run_reports run)} \<longrightarrow>
            settle_in order (map snd (run_reports run))
              (replicate (length (run_reports run)) None) = map Some (run_reports run))"
proof -
  note res = results_of_run [OF assms]
  have len: "length (results r) = length (run_submitted run)"
    using res by simp
  have names: "map r_analyzer (results r) = map s_analyzer (run_submitted run)"
  proof (rule nth_equalityI)
    show "length (map r_analyzer (results r)) = length (map s_analyzer (run_submitted run))"
      using len by simp
  next
    fix i assume "i < length (map r_analyzer (results r))"
    then have i: "i < length (run_reports run)" using len res(2) by simp
    have "r_analyzer (summary_record n out) = n" for n out
      by (simp add: summary_record_def split: settled.splits prod.splits)
    then show "map r_analyzer (results r) ! i = map s_analyzer (run_submitted run) ! i"
      using nth_results_of_run [OF assms i] i len res(2) by simp
  qed
  have each: "\<forall>i < length (run_submitted run).
      results r ! i = summary_record (s_analyzer (run_submitted run ! i)) (snd (run_reports run ! i))"
    using nth_results_of_run [OF assms] res(2) by simp
  have "filter is_wait (issued w run) =
      map (\<lambda>s. WaitAndGetReport (s_jobId s) (timeout args)) (run_submitted run)"
    unfolding issued_by_report_run [OF assms] by (simp add: filter_map comp_def)
  moreover have "\<forall>order. set order = {0..<length (run_reports run)} \<longrightarrow>
      settle_in order (map snd (run_reports run))
        (replicate (length (run_reports run)) None) = map Some (run_reports run)"
  proof (intro allI impI)
    fix order assume order: "set order = {0..<length (run_reports run)}"
    from report_run_anatomy [OF assms] obtain qs where reps: "run_reports run = allSettled qs"
      by blast
    show "settle_in order (map snd (run_reports run))
        (replicate (length (run_reports run)) None) = map Some (run_reports run)"
      using settle_order_irrelevant [of order qs] order
      by (simp add: reps map_snd_allSettled length_allSettled)
  qed
  ultimately show ?thesis using res(2) len names each by simp
qed

theorem results_follow_submitted_witness:
  "run_outcome both_complete_run = Report both_complete_report \<and>
   length (run_reports both_complete_run) = length (run_submitted both_complete_run) \<and>
   length (results both_complete_report) = length (run_submitted both_complete_run) \<and>
   map r_analyzer (results both_complete_report) = map s_analyzer (run_submitted both_complete_run) \<and>
   map s_analyzer (run_submitted both_complete_run) = [''VirusTotal_GetReport'', ''AbuseIPDB''] \<and>
   0 < length (run_submitted both_complete_run) \<and>
   results both_complete_report ! 0 =
     summary_record (s_analyzer (run_submitted both_complete_run ! 0))
       (snd (run_reports both_complete_run ! 0)) \<and>
   filter is_wait (issued both_complete_world both_complete_run) =
     [WaitAndGetReport ''job_1'' 60, WaitAndGetReport ''job_2'' 60] \<and>
   set [1, 0] = {0..<length (run_reports both_complete_run)} \<and>
   settle_in [1, 0] (map snd (run_reports both_complete_run))
     (replicate (length (run_reports both_complete_run)) None) =
     map Some (run_reports both_complete_run)"
proof -
  note inst = results_follow_submitted [OF both_complete_run_def [symmetric] both_complete_outcome]
  have pos: "0 < length (run_submitted both_complete_run)"
    by (simp add: both_complete_submitted)
  have "length (run_reports both_complete_run) = 2"
    using inst by (simp add: both_complete_submitted)
  then have order: "set [1, 0] = {0..<length (run_reports both_complete_run)}"
    by auto
  then have late_first: "settle_in [1, 0] (map snd (run_reports both_complete_run))
      (replicate (length (run_reports both_complete_run)) None) =
      map Some (run_reports both_complete_run)"
    using inst by blast
  have "filter is_wait (issued both_complete_world both_complete_run) =
      [WaitAndGetReport ''job_1'' 60, WaitAndGetReport ''job_2'' 60]"
    using inst by (simp add: both_complete_submitted ip_args_def)
  then show ?thesis
    using both_complete_outcome inst pos order late_first
    by (simp add: both_complete_submitted)
qed

text \<open>
  C4. In a run that ends in a report, \<open>analyzersRun\<close> is the length of the submitted list,
  which is the number of fulfilled submissions, and \<open>analyzersFailed\<close> is the length of the
  rejections list, which is the number of rejected submissions; the serialized report
  carries both numbers under these two keys.
\<close>

theorem analyzers_run_and_failed:
  assumes "try_block c args w = run" and "run_outcome run = Report r"
  shows "analyzersRun r = length (run_submitted run) \<and>
         analyzersFailed r = length (run_failed run) \<and>
         analyzersRun r = length (filter is_fulfilled (map snd (run_submissions run))) \<and>
         analyzersFailed r = length (filter (\<lambda>p. \<not> is_fulfilled p) (map snd (run_submissions run))) \<and>
         (\<exists>kvs. content_text (fst (handler c args w)) = Json (Some (Obj kvs)) \<and>
                map_of kvs ''analyzersRun'' = Some (Num (analyzersRun r)) \<and>
                map_of kvs ''analyzersFailed'' = Some (Num (analyzersFailed r)))"
proof -
  from report_run_anatomy [OF assms] obtain ps qs where
    subs: "run_submissions run = allSettled ps" and
    submitted: "run_submitted run = fulfilled_values (allSettled ps)" and
    r: "r = build_report args (run_submitted run) (run_failed run)
              (aggregate (run_submitted run) (allSettled qs))"
    by blast
  have run: "analyzersRun r = length (run_submitted run)"
    and failed: "analyzersFailed r = length (run_failed run)"
    using r by (simp_all add: build_report_def)
  have "length (run_submitted run) = length (filter is_fulfilled (map snd (run_submissions run)))"
    using subs submitted by (simp add: length_fulfilled_values)
  moreover have "length (run_failed run) =
      length (filter (\<lambda>p. \<not> is_fulfilled p) (map snd (run_submissions run)))"
    using length_run_failed [OF assms] by (simp add: length_rejected_reasons)
  moreover have "map_of (json_report r) ''analyzersRun'' = Some (Num (analyzersRun r))"
    and "map_of (json_report r) ''analyzersFailed'' = Some (Num (analyzersFailed r))"
    by (simp_all add: json_report_def)
  ultimately show ?thesis
    using run failed handler_report [OF assms] by simp
qed

theorem analyzers_run_and_failed_witness:
  "run_outcome partial_failure_run = Report partial_failure_report \<and>
   analyzersRun partial_failure_report = length (run_submitted partial_failure_run) \<and>
   analyzersFailed partial_failure_report = length (run_failed partial_failure_run) \<and>
   analyzersRun partial_failure_report = 1 \<and> analyzersFailed partial_failure_report = 1"
  using partial_failure_outcome
    analyzers_run_and_failed [OF partial_failure_run_def [symmetric] partial_failure_outcome]
  by (simp add: partial_failure_report_def)

text \<open>
  C5. In a run that ends in a report, the count the summary holds for a severity level is
  the number of findings of that level in the reports of the fulfilled waits, summed over
  the fulfilled waits; over all waits, a rejected one counting zero. There is a wait only
  for a submitted job, so a rejected submission adds to no count either.
\<close>

theorem category_tally:
  assumes "try_block c args w = run" and "run_outcome run = Report r"
  shows "level_count (summary r) l =
           sum_list (map (\<lambda>v. findings_with l (snd v)) (fulfilled_values (run_reports run))) \<and>
         level_count (summary r) l =
           sum_list (map (\<lambda>p. case snd p of fulfilled v \<Rightarrow> findings_with l (snd v)
                                           | rejected e \<Rightarrow> 0) (run_reports run)) \<and>
         length (run_reports run) = length (run_submitted run)"
proof -
  have "level_count (summary r) l =
      length (filter (\<lambda>t. t_level t = l)
        (concat (map findings_of (map snd (run_reports run)))))"
    by (rule level_count_of_run [OF assms])
  also have "\<dots> =
      sum_list (map (\<lambda>v. length (filter (\<lambda>t. t_level t = l) (taxonomies_of (snd v))))
        (fulfilled_values (run_reports run)))"
    by (rule findings_of_completed)
  also have "\<dots> =
      sum_list (map (\<lambda>v. findings_with l (snd v)) (fulfilled_values (run_reports run)))"
    by (simp add: findings_with_def)
  finally have completed: "level_count (summary r) l =
      sum_list (map (\<lambda>v. findings_with l (snd v)) (fulfilled_values (run_reports run)))" .
  have "sum_list (map (\<lambda>v. findings_with l (snd v)) (fulfilled_values (run_reports run))) =
      sum_list (map (\<lambda>p. case snd p of fulfilled v \<Rightarrow> findings_with l (snd v)
                                      | rejected e \<Rightarrow> 0) (run_reports run))"
    by (rule sum_over_completed)
  then show ?thesis
    using completed results_of_run(2) [OF assms] by simp
qed

theorem category_tally_witness:
  "run_outcome partial_failure_run = Report partial_failure_report \<and>
   level_count (summary partial_failure_report) Safe =
     sum_list (map (\<lambda>v. findings_with Safe (snd v))
       (fulfilled_values (run_reports partial_failure_run))) \<and>
   level_count (summary partial_failure_report) Safe = 1 \<and>
   level_count (summary partial_failure_report) Malicious = 0"
  using partial_failure_outcome
    category_tally [OF partial_failure_run_def [symmetric] partial_failure_outcome, of Safe]
  by (simp add: partial_failure_report_def level_count_def)

text \<open>
  C6. In a run that ends in a report, the serialized report has the key
  \<open>submissionErrors\<close> exactly when the rejections list is not empty; the key then holds
  the rejections, and there is no such key (not an empty array) when no submission was
  rejected.
\<close>

theorem submission_errors_field:
  assumes "try_block c args w = run" and "run_outcome run = Report r"
  shows "\<exists>kvs. content_text (fst (handler c args w)) = Json (Some (Obj kvs)) \<and>
           (''submissionErrors'' \<in> fst ` set kvs \<longleftrightarrow> 0 < length (run_failed run)) \<and>
           map_of kvs ''submissionErrors'' =
             (if 0 < length (run_failed run) then Some (Arr (map json_failed (run_failed run)))
              else None) \<and>
           length (run_failed run) =
             length (filter (\<lambda>p. \<not> is_fulfilled p) (map snd (run_submissions run)))"
proof -
  from report_run_anatomy [OF assms] obtain qs where
    r: "r = build_report args (run_submitted run) (run_failed run)
              (aggregate (run_submitted run) (allSettled qs))"
    by blast
  have errs: "submissionErrors r = (if 0 < length (run_failed run) then Some (run_failed run) else None)"
    using r by (simp add: build_report_def)
  have "''submissionErrors'' \<in> fst ` set (json_report r) \<longleftrightarrow> 0 < length (run_failed run)"
    by (simp add: json_report_def errs)
  moreover have "map_of (json_report r) ''submissionErrors'' =
      (if 0 < length (run_failed run) then Some (Arr (map json_failed (run_failed run))) else None)"
    by (simp add: json_report_def errs)
  moreover have "length (run_failed run) =
      length (filter (\<lambda>p. \<not> is_fulfilled p) (map snd (run_submissions run)))"
    using length_run_failed [OF assms] by (simp add: length_rejected_reasons)
  ultimately show ?thesis
    using handler_report [OF assms] by simp
qed

theorem submission_errors_field_witness:
  "run_outcome partial_failure_run = Report partial_failure_report \<and>
   0 < length (run_failed partial_failure_run) \<and>
   (\<exists>kvs. content_text (fst (handler (mock_client (Inr mockAnalyzers)) ip_args
             partial_failure_world)) = Json (Some (Obj kvs)) \<and>
          ''submissionErrors'' \<in> fst ` set kvs) \<and>
   run_outcome both_complete_run = Report both_complete_report \<and>
   length (run_failed both_complete_run) = 0 \<and>
   (\<exists>kvs. content_text (fst (handler (mock_client (Inr mockAnalyzers)) ip_args
             both_complete_world)) = Json (Some (Obj kvs)) \<and>
          ''submissionErrors'' \<notin> fst ` set kvs)"
proof -
  have some: "0 < length (run_failed partial_failure_run)"
    by (simp add: partial_failure_failed)
  have none: "length (run_failed both_complete_run) = 0"
    by (simp add: both_complete_failed)
  show ?thesis
    using partial_failure_outcome both_complete_outcome some none
      submission_errors_field [OF partial_failure_run_def [symmetric] partial_failure_outcome]
      submission_errors_field [OF both_complete_run_def [symmetric] both_complete_outcome]
    by auto
qed

text \<open>
  C7. When the directory lookup succeeds and no listed analyzer supports the data type,
  the handler answers with the message \<open>No analyzers found that support data type "..."\<close>,
  without an error flag, and the only call it issued is the lookup. When some analyzer
  supports the data type, the run ends in a report and has issued one submission per
  applicable analyzer, in order.
\<close>

theorem no_applicable_short_circuit:
  assumes "listAnalyzers c (fst w) = (Inr allAnalyzers, s1)"
  shows "(applicable_of (dataType args) allAnalyzers = [] \<longrightarrow>
            run_outcome (try_block c args w) = NoAnalyzers \<and>
            fst (handler c args w) =
              \<lparr>content_text =
                 Message (''No analyzers found that support data type '' @ [CHR 0x22]
                            @ dataType args @ [CHR 0x22] @ ''.''),
               isError = None\<rparr> \<and>
            (\<exists>rest. content_text (fst (handler c args w)) = Message (''No analyzers found'' @ rest)) \<and>
            (\<forall>j. content_text (fst (handler c args w)) \<noteq> Json j) \<and>
            issued w (try_block c args w) = [ListAnalyzers] \<and>
            snd (snd (handler c args w)) = snd w @ [ListAnalyzers]) \<and>
         (applicable_of (dataType args) allAnalyzers \<noteq> [] \<longrightarrow>
            (\<exists>r. run_outcome (try_block c args w) = Report r) \<and>
            filter is_submit (issued w (try_block c args w)) =
              map (\<lambda>a. RunAnalyzer (a_id a) (request_of args))
                (applicable_of (dataType args) allAnalyzers))"
proof (intro conjI impI)
  assume none: "applicable_of (dataType args) allAnalyzers = []"
  note run = try_block_none_applicable [OF assms none]
  show "run_outcome (try_block c args w) = NoAnalyzers" using run by simp
  show resp: "fst (handler c args w) =
      \<lparr>content_text =
         Message (''No analyzers found that support data type '' @ [CHR 0x22]
                    @ dataType args @ [CHR 0x22] @ ''.''),
       isError = None\<rparr>"
    using run by (simp add: handler_def respond_def no_analyzers_response_def Let_def)
  show "\<exists>rest. content_text (fst (handler c args w)) = Message (''No analyzers found'' @ rest)"
    unfolding resp by simp
  show "\<forall>j. content_text (fst (handler c args w)) \<noteq> Json j"
    unfolding resp by simp
  show "issued w (try_block c args w) = [ListAnalyzers]"
    using run by (simp add: issued_def)
  show "snd (snd (handler c args w)) = snd w @ [ListAnalyzers]"
    using run by (simp add: handler_world)
next
  assume some: "applicable_of (dataType args) allAnalyzers \<noteq> []"
  from listing_ok_gives_report [OF assms some]
  obtain r where r: "run_outcome (try_block c args w) = Report r" by blast
  then show "\<exists>r. run_outcome (try_block c args w) = Report r" by blast
  from report_run_anatomy [OF refl r] assms
  have app: "run_applicable (try_block c args w) = applicable_of (dataType args) allAnalyzers"
    by auto
  show "filter is_submit (issued w (try_block c args w)) =
      map (\<lambda>a. RunAnalyzer (a_id a) (request_of args))
        (applicable_of (dataType args) allAnalyzers)"
    unfolding issued_by_report_run [OF refl r] app by (simp add: filter_map comp_def)
qed

theorem no_applicable_short_circuit_witness:
  "listAnalyzers (mock_client (Inr mockAnalyzers)) (fst both_complete_world) =
     (Inr mockAnalyzers, fst both_complete_world) \<and>
   applicable_of (dataType registry_args) mockAnalyzers = [] \<and>
   run_outcome (try_block (mock_client (Inr mockAnalyzers)) registry_args both_complete_world) =
     NoAnalyzers \<and>
   fst (handler (mock_client (Inr mockAnalyzers)) registry_args both_complete_world) =
     \<lparr>content_text =
        Message (''No analyzers found that support data type '' @ [CHR 0x22] @ ''registry''
                   @ [CHR 0x22] @ ''.''),
      isError = None\<rparr> \<and>
   issued both_complete_world
     (try_block (mock_client (Inr mockAnalyzers)) registry_args both_complete_world) =
     [ListAnalyzers] \<and>
   applicable_of (dataType ip_args) mockAnalyzers \<noteq> [] \<and>
   filter is_submit (issued both_complete_world both_complete_run) =
     [RunAnalyzer ''VirusTotal_GetReport_3_1'' (request_of ip_args),
      RunAnalyzer ''AbuseIPDB_1_0'' (request_of ip_args)]"
proof -
  have l: "listAnalyzers (mock_client (Inr mockAnalyzers)) (fst both_complete_world) =
      (Inr mockAnalyzers, fst both_complete_world)"
    by (simp add: mock_client_def)
  have app: "applicable_of (dataType ip_args) mockAnalyzers = take 2 mockAnalyzers"
    by code_simp
  have "filter is_submit (issued both_complete_world both_complete_run) =
     [RunAnalyzer ''VirusTotal_GetReport_3_1'' (request_of ip_args),
      RunAnalyzer ''AbuseIPDB_1_0'' (request_of ip_args)]"
    using no_applicable_short_circuit [OF l, of ip_args] ip_some
    unfolding both_complete_run_def [symmetric] app by (simp add: mockAnalyzers_def)
  then show ?thesis
    using l registry_none ip_some no_applicable_short_circuit [OF l, of registry_args]
    by (simp add: registry_args_def)
qed

text \<open>
  C8. The response carries the error flag exactly when the directory lookup fails. It is
  then the message \<open>Error analyzing observable: ...\<close> with the reason of the failure, and
  the lookup is the only call the run issued. When the lookup succeeds the response has no
  error flag, whatever the submissions and the waits do, and as soon as one analyzer is
  applicable it is the serialized report of the run, in which every failure of a provider
  stands as data. Put the submissions of the applicable analyzers to the client, then the
  waits for the submitted jobs: the submitted jobs are those of the accepted submissions;
  \<open>analyzersFailed\<close> counts the rejected submissions and the rejections list holds
  their messages, in order, under the key \<open>submissionErrors\<close>, which is absent only when
  no submission was rejected; \<open>results\<close> has one entry per wait, and the entry of a
  rejected wait is the name of its job, the status \<open>Error\<close> and the line \<open>Error: \<close>
  followed by the reason. A response that is a serialized report never carries the flag.
  Inputs are taken at their declared types.
\<close>

theorem error_flag_only_from_directory:
  "(isError (fst (handler c args w)) = Some True \<longleftrightarrow>
      (\<exists>e. fst (listAnalyzers c (fst w)) = Inl e)) \<and>
   (\<forall>e. fst (listAnalyzers c (fst w)) = Inl e \<longrightarrow>
      fst (handler c args w) =
        \<lparr>content_text = Message (''Error analyzing observable: '' @ reason_text e),
         isError = Some True\<rparr> \<and>
      issued w (try_block c args w) = [ListAnalyzers]) \<and>
   (\<forall>allAnalyzers. fst (listAnalyzers c (fst w)) = Inr allAnalyzers \<longrightarrow>
      isError (fst (handler c args w)) = None \<and>
      (applicable_of (dataType args) allAnalyzers \<noteq> [] \<longrightarrow>
         (\<exists>r. fst (handler c args w) =
                \<lparr>content_text = Json (Some (Obj (json_report r))), isError = None\<rparr> \<and>
              run_outcome (try_block c args w) = Report r \<and>
              (let applicable = applicable_of (dataType args) allAnalyzers;
                   submissions = submit_answers c args applicable (snd (listAnalyzers c (fst w)));
                   submitted = run_submitted (try_block c args w);
                   waits = wait_answers c args submitted (snd submissions)
               in submitted =
                    List.map_filter value_of (map2 submission_of applicable (fst submissions)) \<and>
                  analyzersRun r = length submitted \<and>
                  analyzersFailed r = length (List.map_filter rejection (fst submissions)) \<and>
                  map f_error (reported_errors r) =
                    map reason_text (List.map_filter rejection (fst submissions)) \<and>
                  (submissionErrors r = None \<longleftrightarrow>
                     List.map_filter rejection (fst submissions) = []) \<and>
                  map_of (json_report r) ''submissionErrors'' =
                    (if List.map_filter rejection (fst submissions) = [] then None
                     else Some (Arr (map json_failed (reported_errors r)))) \<and>
                  length (results r) = length (fst waits) \<and>
                  (\<forall>i < length (fst waits). \<forall>e. fst waits ! i = Inl e \<longrightarrow>
                     results r ! i =
                       \<lparr>r_analyzer = s_analyzer (submitted ! i), r_status = ''Error'',
                        r_taxonomies = [''Error: '' @ reason_text e]\<rparr>) \<and>
                  map_of (json_report r) ''results'' =
                    Some (Arr (map json_result (results r))))))) \<and>
   (\<forall>j. content_text (fst (handler c args w)) = Json j \<longrightarrow>
      isError (fst (handler c args w)) = None)"
proof -
  obtain res s1 where l: "listAnalyzers c (fst w) = (res, s1)" by (cases "listAnalyzers c (fst w)")
  show ?thesis
  proof (cases res)
    case (Inl e)
    note run = try_block_listing_fails [OF l [unfolded Inl], of args]
    have "fst (handler c args w) =
        \<lparr>content_text = Message (''Error analyzing observable: '' @ reason_text e),
         isError = Some True\<rparr>"
      using run by (simp add: handler_def respond_def error_response_def Let_def)
    moreover have "issued w (try_block c args w) = [ListAnalyzers]"
      using run by (simp add: issued_def)
    ultimately show ?thesis using l Inl by simp
  next
    case (Inr allAnalyzers)
    from l Inr have l': "listAnalyzers c (fst w) = (Inr allAnalyzers, s1)" by simp
    show ?thesis
    proof (cases "applicable_of (dataType args) allAnalyzers = []")
      case True
      have "fst (handler c args w) = no_analyzers_response (dataType args)"
        using try_block_none_applicable [OF l' True]
        by (simp add: handler_def respond_def Let_def)
      then show ?thesis using l' True by (simp add: no_analyzers_response_def)
    next
      case False
      let ?run = "try_block c args w"
      let ?app = "applicable_of (dataType args) allAnalyzers"
      let ?sa = "submit_answers c args ?app s1"
      let ?wa = "wait_answers c args (run_submitted ?run) (snd ?sa)"
      let ?rej = "List.map_filter rejection (fst ?sa)"
      from report_run_answers [OF l' False] obtain r where
        r: "run_outcome ?run = Report r" and
        subs: "map snd (run_submissions ?run) = map2 submission_of ?app (fst ?sa)" and
        reps: "map snd (run_reports ?run) = map2 completion_of (run_submitted ?run) (fst ?wa)"
        by blast
      from report_run_anatomy [OF refl r] obtain ps qs where
        settled: "run_submissions ?run = allSettled ps" and
        submitted: "run_submitted ?run = fulfilled_values (allSettled ps)" and
        build: "r = build_report args (run_submitted ?run) (run_failed ?run)
                  (aggregate (run_submitted ?run) (allSettled qs))"
        by blast
      have ps: "ps = map2 submission_of ?app (fst ?sa)"
        using subs settled by (simp add: map_snd_allSettled)
      have resp: "fst (handler c args w) =
          \<lparr>content_text = Json (Some (Obj (json_report r))), isError = None\<rparr>"
        by (rule handler_report [OF refl r])
      have sub_eq: "run_submitted ?run =
          List.map_filter value_of (map2 submission_of ?app (fst ?sa))"
        using submitted ps by (simp add: allSettled_def fulfilled_values_zip)
      have rej: "rejected_reasons (run_submissions ?run) = ?rej"
        using settled ps rejected_reasons_settled [of ?app c args s1] by simp
      have run_n: "analyzersRun r = length (run_submitted ?run)"
        using build by (simp add: build_report_def)
      have failed_n: "analyzersFailed r = length ?rej"
        using build length_run_failed [OF refl r] rej by (simp add: build_report_def)
      have errs: "reported_errors r = run_failed ?run"
        using build by (simp add: build_report_def reported_errors_def)
      have msgs: "map f_error (reported_errors r) = map reason_text ?rej"
        using submission_lists_of_run(4) [OF refl r] errs rej by simp
      have none: "submissionErrors r = None \<longleftrightarrow> ?rej = []"
        using build length_run_failed [OF refl r] rej by (auto simp: build_report_def)
      have json_errs: "map_of (json_report r) ''submissionErrors'' =
          (if ?rej = [] then None else Some (Arr (map json_failed (reported_errors r))))"
        using none by (cases "submissionErrors r") (auto simp: json_report_def reported_errors_def)
      have len_waits: "length (fst ?wa) = length (run_submitted ?run)"
        by (simp add: wait_answers_def length_replay)
      have len_reps: "length (run_reports ?run) = length (run_submitted ?run)"
        by (rule results_of_run(2) [OF refl r])
      have len_res: "length (results r) = length (fst ?wa)"
        using results_of_run(1) [OF refl r] len_reps len_waits by simp
      have failed_waits: "\<forall>i < length (fst ?wa). \<forall>e. fst ?wa ! i = Inl e \<longrightarrow>
          results r ! i =
            \<lparr>r_analyzer = s_analyzer (run_submitted ?run ! i), r_status = ''Error'',
             r_taxonomies = [''Error: '' @ reason_text e]\<rparr>"
      proof (intro allI impI)
        fix i e
        assume i: "i < length (fst ?wa)" and e: "fst ?wa ! i = Inl e"
        have i': "i < length (run_reports ?run)" using i len_waits len_reps by simp
        have "map snd (run_reports ?run) ! i = completion_of (run_submitted ?run ! i) (fst ?wa ! i)"
          unfolding reps using i len_waits by simp
        then have "snd (run_reports ?run ! i) = rejected e"
          using i' e by (simp add: completion_of_def)
        then show "results r ! i =
            \<lparr>r_analyzer = s_analyzer (run_submitted ?run ! i), r_status = ''Error'',
             r_taxonomies = [''Error: '' @ reason_text e]\<rparr>"
          using nth_results_of_run [OF refl r i'] by (simp add: summary_record_def)
      qed
      show ?thesis
        using l' False resp r sub_eq run_n failed_n msgs none json_errs len_res failed_waits
          json_report_results [of r]
        by (simp add: Let_def)
    qed
  qed
qed

theorem error_flag_only_from_directory_witness:
  "fst (listAnalyzers (mock_client (Inl unauthorized)) (fst both_complete_world)) =
     Inl unauthorized \<and>
   fst (handler (mock_client (Inl unauthorized)) ip_args both_complete_world) =
     \<lparr>content_text =
        Message (''Error analyzing observable: Cortex API error: ''
                   @ ''Invalid API key or unauthorized access - Unauthorized''),
      isError = Some True\<rparr> \<and>
   issued both_complete_world
     (try_block (mock_client (Inl unauthorized)) ip_args both_complete_world) = [ListAnalyzers] \<and>
   fst (listAnalyzers (mock_client (Inr mockAnalyzers)) (fst all_rejected_world)) =
     Inr mockAnalyzers \<and>
   isError (fst (handler (mock_client (Inr mockAnalyzers)) ip_args all_rejected_world)) = None \<and>
   isError (fst (handler (mock_client (Inr mockAnalyzers)) ip_args degraded_world)) = None \<and>
   applicable_of (dataType ip_args) mockAnalyzers \<noteq> [] \<and>
   fst (submit_answers (mock_client (Inr mockAnalyzers)) ip_args
          (applicable_of (dataType ip_args) mockAnalyzers) (fst all_rejected_world)) =
     [Inl (ErrorObj ''Analyzer rate limited''), Inl (NonError ''socket hang up'')] \<and>
   fst (handler (mock_client (Inr mockAnalyzers)) ip_args all_rejected_world) =
     \<lparr>content_text = Json (Some (Obj (json_report all_rejected_report))), isError = None\<rparr> \<and>
   analyzersFailed all_rejected_report = 2 \<and>
   map f_error (reported_errors all_rejected_report) =
     [''Analyzer rate limited'', ''socket hang up''] \<and>
   map_of (json_report all_rejected_report) ''submissionErrors'' =
     Some (Arr (map json_failed (reported_errors all_rejected_report))) \<and>
   fst (wait_answers (mock_client (Inr mockAnalyzers)) ip_args (run_submitted degraded_run)
          (snd (submit_answers (mock_client (Inr mockAnalyzers)) ip_args
                  (applicable_of (dataType ip_args) mockAnalyzers) (fst degraded_world)))) ! 0 =
     Inl (ErrorObj ''Cortex API timeout after 30000ms'') \<and>
   fst (handler (mock_client (Inr mockAnalyzers)) ip_args degraded_world) =
     \<lparr>content_text = Json (Some (Obj (json_report degraded_report))), isError = None\<rparr> \<and>
   results degraded_report ! 0 =
     \<lparr>r_analyzer = ''VirusTotal_GetReport'', r_status = ''Error'',
      r_taxonomies = [''Error: Cortex API timeout after 30000ms'']\<rparr>"
proof -
  let ?up = "mock_client (Inr mockAnalyzers)"
  have down: "fst (listAnalyzers (mock_client (Inl unauthorized)) (fst both_complete_world)) =
      Inl unauthorized"
    by (simp add: mock_listing)
  have up: "fst (listAnalyzers ?up (fst w)) = Inr mockAnalyzers"
    for w :: "((reason + Job) list \<times> (reason + JobReport) list) world"
    by (simp add: mock_listing)
  note flagged =
    error_flag_only_from_directory [of "mock_client (Inl unauthorized)" ip_args both_complete_world]
  note rejected_run = error_flag_only_from_directory [of ?up ip_args all_rejected_world]
  note degraded = error_flag_only_from_directory [of ?up ip_args degraded_world]
  have flagged_facts:
    "fst (handler (mock_client (Inl unauthorized)) ip_args both_complete_world) =
       \<lparr>content_text =
          Message (''Error analyzing observable: Cortex API error: ''
                     @ ''Invalid API key or unauthorized access - Unauthorized''),
        isError = Some True\<rparr>"
    "issued both_complete_world
       (try_block (mock_client (Inl unauthorized)) ip_args both_complete_world) = [ListAnalyzers]"
    using flagged down by (simp_all add: unauthorized_message)
  have unflagged:
    "isError (fst (handler ?up ip_args all_rejected_world)) = None"
    "isError (fst (handler ?up ip_args degraded_world)) = None"
    using rejected_run degraded up by blast+
  from rejected_run up [of all_rejected_world] ip_some obtain r1 where
    "fst (handler ?up ip_args all_rejected_world) =
       \<lparr>content_text = Json (Some (Obj (json_report r1))), isError = None\<rparr>"
    "run_outcome (try_block ?up ip_args all_rejected_world) = Report r1"
    by blast
  then have rejected_response: "fst (handler ?up ip_args all_rejected_world) =
      \<lparr>content_text = Json (Some (Obj (json_report all_rejected_report))), isError = None\<rparr>"
    using all_rejected_outcome by (simp add: all_rejected_run_def)
  from degraded up [of degraded_world] ip_some obtain r2 where
    "fst (handler ?up ip_args degraded_world) =
       \<lparr>content_text = Json (Some (Obj (json_report r2))), isError = None\<rparr>"
    "run_outcome (try_block ?up ip_args degraded_world) = Report r2"
    by blast
  then have degraded_response: "fst (handler ?up ip_args degraded_world) =
      \<lparr>content_text = Json (Some (Obj (json_report degraded_report))), isError = None\<rparr>"
    using degraded_outcome by (simp add: degraded_run_def)
  have report_facts:
    "analyzersFailed all_rejected_report = 2"
    "map f_error (reported_errors all_rejected_report) =
       [''Analyzer rate limited'', ''socket hang up'']"
    "map_of (json_report all_rejected_report) ''submissionErrors'' =
       Some (Arr (map json_failed (reported_errors all_rejected_report)))"
    "results degraded_report ! 0 =
       \<lparr>r_analyzer = ''VirusTotal_GetReport'', r_status = ''Error'',
        r_taxonomies = [''Error: Cortex API timeout after 30000ms'']\<rparr>"
    by (simp_all add: all_rejected_report_def degraded_report_def reported_errors_def
          json_report_def)
  show ?thesis
    using down up [of all_rejected_world] flagged_facts unflagged ip_some all_rejected_answers
      rejected_response degraded_response report_facts degraded_answers
    by simp
qed

text \<open>
  C9. In a run that ends in a report, a rejected wait at position \<open>i\<close> gives the
  \<open>i\<close>-th entry of \<open>results\<close>: the name of the \<open>i\<close>-th submitted job, the status
  \<open>Error\<close>, which no job status is written as, and the single rendered line
  \<open>Error: \<close> followed by the reason. Every fulfilled wait has its own entry, made of its
  own report alone. The serialized report has no key beyond the six of the report object,
  and \<open>submissionErrors\<close> holds the rejected submissions only.
\<close>

theorem failed_completion_inline:
  assumes "try_block c args w = run" and "run_outcome run = Report r"
      and "i < length (run_reports run)" and "snd (run_reports run ! i) = rejected e"
  shows "results r ! i =
           \<lparr>r_analyzer = s_analyzer (run_submitted run ! i), r_status = ''Error'',
            r_taxonomies = [''Error: '' @ reason_text e]\<rparr> \<and>
         length (results r) = length (run_reports run) \<and>
         (\<forall>j < length (run_reports run). \<forall>a report.
            snd (run_reports run ! j) = fulfilled (a, report) \<longrightarrow>
            a = s_analyzer (run_submitted run ! j) \<and>
            results r ! j =
              \<lparr>r_analyzer = a, r_status = status_str (j_status report),
               r_taxonomies = map render (taxonomies_of report)\<rparr>) \<and>
         (\<forall>st. status_str st \<noteq> ''Error'') \<and>
         (\<exists>kvs. content_text (fst (handler c args w)) = Json (Some (Obj kvs)) \<and>
            set (map fst kvs) \<subseteq>
              {''observable'', ''analyzersRun'', ''analyzersFailed'', ''summary'', ''results'',
               ''submissionErrors''} \<and>
            map_of kvs ''results'' = Some (Arr (map json_result (results r))) \<and>
            map_of kvs ''submissionErrors'' =
              (if 0 < length (run_failed run) then Some (Arr (map json_failed (run_failed run)))
               else None))"
proof -
  note res = results_of_run [OF assms(1,2)]
  have here: "results r ! i =
      \<lparr>r_analyzer = s_analyzer (run_submitted run ! i), r_status = ''Error'',
       r_taxonomies = [''Error: '' @ reason_text e]\<rparr>"
    using nth_results_of_run [OF assms(1-3)] assms(4) by (simp add: summary_record_def)
  have len: "length (results r) = length (run_reports run)"
    using res by simp
  from report_run_anatomy [OF assms(1,2)] obtain qs where
    reps: "run_reports run = allSettled qs" and
    names: "list_all2 names_agree (run_submitted run) qs" and
    r: "r = build_report args (run_submitted run) (run_failed run)
              (aggregate (run_submitted run) (allSettled qs))"
    by blast
  have others: "\<forall>j < length (run_reports run). \<forall>a report.
      snd (run_reports run ! j) = fulfilled (a, report) \<longrightarrow>
      a = s_analyzer (run_submitted run ! j) \<and>
      results r ! j =
        \<lparr>r_analyzer = a, r_status = status_str (j_status report),
         r_taxonomies = map render (taxonomies_of report)\<rparr>"
  proof (intro allI impI)
    fix j a report
    assume j: "j < length (run_reports run)"
      and out: "snd (run_reports run ! j) = fulfilled (a, report)"
    have jq: "j < length qs" using j reps by (simp add: length_allSettled)
    have "names_agree (run_submitted run ! j) (qs ! j)"
      using names jq by (simp add: list_all2_nthD2)
    then have a: "a = s_analyzer (run_submitted run ! j)"
      using out reps jq by (simp add: nth_allSettled names_agree_def)
    then show "a = s_analyzer (run_submitted run ! j) \<and>
      results r ! j =
        \<lparr>r_analyzer = a, r_status = status_str (j_status report),
         r_taxonomies = map render (taxonomies_of report)\<rparr>"
      using nth_results_of_run [OF assms(1,2) j] out by (simp add: summary_record_def)
  qed
  have errs: "submissionErrors r = (if 0 < length (run_failed run) then Some (run_failed run) else None)"
    using r by (simp add: build_report_def)
  have "map_of (json_report r) ''submissionErrors'' =
      (if 0 < length (run_failed run) then Some (Arr (map json_failed (run_failed run))) else None)"
    by (simp add: json_report_def errs)
  then show ?thesis
    using here len others status_str_not_Error json_report_keys [of r] json_report_results [of r]
      handler_report [OF assms(1,2)]
    by simp
qed

theorem failed_completion_inline_witness:
  "run_outcome degraded_run = Report degraded_report \<and>
   0 < length (run_reports degraded_run) \<and>
   snd (run_reports degraded_run ! 0) = rejected (ErrorObj ''Cortex API timeout after 30000ms'') \<and>
   results degraded_report ! 0 =
     \<lparr>r_analyzer = ''VirusTotal_GetReport'', r_status = ''Error'',
      r_taxonomies = [''Error: Cortex API timeout after 30000ms'']\<rparr> \<and>
   results degraded_report ! 1 =
     \<lparr>r_analyzer = ''AbuseIPDB'', r_status = ''Failure'', r_taxonomies = []\<rparr>"
proof -
  have i: "0 < length (run_reports degraded_run)" by (simp add: degraded_reports)
  have out: "snd (run_reports degraded_run ! 0) =
      rejected (ErrorObj ''Cortex API timeout after 30000ms'')"
    by (simp add: degraded_reports)
  note inst = failed_completion_inline [OF degraded_run_def [symmetric] degraded_outcome i out]
  have "results degraded_report ! 0 =
     \<lparr>r_analyzer = ''VirusTotal_GetReport'', r_status = ''Error'',
      r_taxonomies = [''Error: Cortex API timeout after 30000ms'']\<rparr>"
    using inst by (simp add: degraded_submitted)
  moreover have "results degraded_report ! 1 =
     \<lparr>r_analyzer = ''AbuseIPDB'', r_status = ''Failure'', r_taxonomies = []\<rparr>"
    by (simp add: degraded_report_def)
  ultimately show ?thesis using degraded_outcome i out by simp
qed

text \<open>
  C10. A fulfilled wait whose report has no \<open>report\<close>, no \<open>summary\<close> or no
  \<open>taxonomies\<close> does not fail the run: the run ends in a report without an error flag,
  the entry of that wait in \<open>results\<close> has the provider's name, the status of its job and
  no rendered finding, and every count of the summary is what the other waits alone give.
\<close>

theorem missing_findings_are_empty:
  assumes "try_block c args w = run"
      and "i < length (run_reports run)"
      and "snd (run_reports run ! i) = fulfilled (a, report)"
      and "j_report report = None \<or>
           (\<exists>body. j_report report = Some body \<and>
              (b_summary body = None \<or>
               (\<exists>sm. b_summary body = Some sm \<and> s_taxonomies sm = None)))"
  shows "\<exists>r. run_outcome run = Report r \<and>
           isError (fst (handler c args w)) = None \<and>
           results r ! i =
             \<lparr>r_analyzer = a, r_status = status_str (j_status report), r_taxonomies = []\<rparr> \<and>
           (\<forall>l. findings_with l report = 0) \<and>
           (\<forall>l. level_count (summary r) l =
              sum_list (map (\<lambda>v. findings_with l (snd v))
                (fulfilled_values (take i (run_reports run) @ drop (Suc i) (run_reports run)))))"
proof -
  have "run_reports (try_block c args w) \<noteq> []" using assms(1,2) by auto
  from reports_only_in_report_run [OF this] obtain r where r: "run_outcome run = Report r"
    using assms(1) by auto
  have none: "taxonomies_of report = []"
    using assms(4) by (auto simp: taxonomies_of_def)
  then have zero: "findings_with l report = 0" for l by (simp add: findings_with_def)
  from report_run_anatomy [OF assms(1) r] obtain qs where
    reps: "run_reports run = allSettled qs" and
    names: "list_all2 names_agree (run_submitted run) qs"
    by blast
  have iq: "i < length qs" using assms(2) reps by (simp add: length_allSettled)
  have "names_agree (run_submitted run ! i) (qs ! i)"
    using names iq by (simp add: list_all2_nthD2)
  then have a: "a = s_analyzer (run_submitted run ! i)"
    using assms(3) reps iq by (simp add: nth_allSettled names_agree_def)
  have entry: "results r ! i =
      \<lparr>r_analyzer = a, r_status = status_str (j_status report), r_taxonomies = []\<rparr>"
    using nth_results_of_run [OF assms(1) r assms(2)] assms(3) a none
    by (simp add: summary_record_def)
  have split: "run_reports run =
      take i (run_reports run) @ (run_reports run ! i) # drop (Suc i) (run_reports run)"
    using assms(2) by (simp add: id_take_nth_drop)
  obtain k where k: "run_reports run ! i = (k, fulfilled (a, report))"
    using assms(3) by (cases "run_reports run ! i") auto
  have "fulfilled_values (run_reports run) =
      fulfilled_values (take i (run_reports run)) @ (a, report)
        # fulfilled_values (drop (Suc i) (run_reports run))"
    by (subst split) (simp add: fulfilled_values_append k)
  then have tally: "sum_list (map (\<lambda>v. findings_with l (snd v)) (fulfilled_values (run_reports run))) =
      sum_list (map (\<lambda>v. findings_with l (snd v))
        (fulfilled_values (take i (run_reports run) @ drop (Suc i) (run_reports run))))" for l
    by (simp add: fulfilled_values_append zero)
  have "level_count (summary r) l =
      sum_list (map (\<lambda>v. findings_with l (snd v)) (fulfilled_values (run_reports run)))" for l
    unfolding level_count_of_run [OF assms(1) r] findings_of_completed findings_with_def ..
  then have "level_count (summary r) l =
      sum_list (map (\<lambda>v. findings_with l (snd v))
        (fulfilled_values (take i (run_reports run) @ drop (Suc i) (run_reports run))))" for l
    using tally [of l] by simp
  then show ?thesis
    using r entry zero handler_report [OF assms(1) r] by simp
qed

theorem missing_findings_are_empty_witness:
  "1 < length (run_reports degraded_run) \<and>
   snd (run_reports degraded_run ! 1) =
     fulfilled (''AbuseIPDB'', \<lparr>j_id = ''job_2'', j_status = Failure, j_report = None\<rparr>) \<and>
   (\<exists>r. run_outcome degraded_run = Report r \<and>
      results r ! 1 = \<lparr>r_analyzer = ''AbuseIPDB'', r_status = ''Failure'', r_taxonomies = []\<rparr> \<and>
      level_count (summary r) Malicious = 0)"
proof -
  have i: "1 < length (run_reports degraded_run)" by (simp add: degraded_reports)
  have out: "snd (run_reports degraded_run ! 1) =
      fulfilled (''AbuseIPDB'', \<lparr>j_id = ''job_2'', j_status = Failure, j_report = None\<rparr>)"
    by (simp add: degraded_reports)
  have miss: "j_report \<lparr>j_id = ''job_2'', j_status = Failure, j_report = None\<rparr> = None \<or>
      (\<exists>body. j_report \<lparr>j_id = ''job_2'', j_status = Failure, j_report = None\<rparr> = Some body \<and>
         (b_summary body = None \<or> (\<exists>sm. b_summary body = Some sm \<and> s_taxonomies sm = None)))"
    by simp
  from missing_findings_are_empty [OF degraded_run_def [symmetric] i out miss]
  obtain r where r: "run_outcome degraded_run = Report r"
    and entry: "results r ! 1 =
      \<lparr>r_analyzer = ''AbuseIPDB'', r_status = status_str Failure, r_taxonomies = []\<rparr>"
    by auto
  have "r = degraded_report" using r degraded_outcome by simp
  then have "level_count (summary r) Malicious = 0"
    by (simp add: degraded_report_def level_count_def)
  then show ?thesis using i out r entry by auto
qed

end
